theory Spec2Isabelle
  imports Main "HOL-Library.Word"
begin

unbundle bit_operations_syntax

section \<open>Data model\<close>

text \<open>
  The script \<^verbatim>\<open>images/create_icons.py\<close> builds a PNG byte stream by hand. Python
  \<^verbatim>\<open>bytes\<close> are lists of 8-bit words, Python integers are unbounded (\<open>int\<close>), and every
  exception the function can raise is a value of \<open>error\<close>.
\<close>

type_synonym byte = "8 word"
type_synonym bytes = "byte list"

datatype error = StructError | OSError

section \<open>The library calls of the script\<close>

subsection \<open>\<^verbatim>\<open>struct.pack\<close> with a big-endian format\<close>

text \<open>
  The two format codes the script uses: \<^verbatim>\<open>I\<close> (4-byte unsigned) and \<^verbatim>\<open>B\<close> (1-byte
  unsigned). \<^verbatim>\<open>struct.pack\<close> raises \<^verbatim>\<open>struct.error\<close> for an argument outside the range
  of its code; with the prefix \<^verbatim>\<open>></\<close> the bytes are big-endian, without padding.
\<close>

datatype fmt = I | B

definition be32 :: "int \<Rightarrow> bytes" where
  "be32 v = [of_int (v div 16777216), of_int (v div 65536), of_int (v div 256), of_int v]"

definition pack_field :: "fmt \<Rightarrow> int \<Rightarrow> error + bytes" where
  "pack_field f v =
     (case f of
        I \<Rightarrow> if 0 \<le> v \<and> v \<le> 4294967295 then Inr (be32 v) else Inl StructError
      | B \<Rightarrow> if 0 \<le> v \<and> v \<le> 255 then Inr [of_int v] else Inl StructError)"

fun struct_pack :: "(fmt \<times> int) list \<Rightarrow> error + bytes" where
  "struct_pack [] = Inr []"
| "struct_pack ((f, v) # rest) =
     (case pack_field f v of
        Inl e \<Rightarrow> Inl e
      | Inr bs \<Rightarrow> (case struct_pack rest of Inl e \<Rightarrow> Inl e | Inr bs' \<Rightarrow> Inr (bs @ bs')))"

subsection \<open>\<^verbatim>\<open>zlib.crc32\<close>\<close>

text \<open>
  Modelled from the spec: \<^verbatim>\<open>zlib.crc32\<close> is library code outside the repository; the
  spec names it "CRC-32 ... using the standard CRC-32 polynomial". This is the bitwise
  form of that checksum (reflected polynomial \<open>0xEDB88320\<close>, initial value and final
  complement \<open>0xFFFFFFFF\<close>); Python returns it as an unsigned integer.
\<close>

definition crc_shift :: "32 word \<Rightarrow> 32 word" where
  "crc_shift c = (if bit c 0 then drop_bit 1 c XOR 0xEDB88320 else drop_bit 1 c)"

definition crc_byte :: "32 word \<Rightarrow> byte \<Rightarrow> 32 word" where
  "crc_byte c b = (crc_shift ^^ 8) (c XOR ucast b)"

definition crc32 :: "bytes \<Rightarrow> int" where
  "crc32 bs = uint (foldl crc_byte 0xFFFFFFFF bs XOR 0xFFFFFFFF)"

section \<open>The encoder\<close>

subsection \<open>Constants\<close>

definition header :: bytes where
  "header = [0x89, 0x50, 0x4E, 0x47, 0x0D, 0x0A, 0x1A, 0x0A]"

definition tag_IHDR :: bytes where
  "tag_IHDR = [0x49, 0x48, 0x44, 0x52]"

definition tag_IDAT :: bytes where
  "tag_IDAT = [0x49, 0x44, 0x41, 0x54]"

definition tag_IEND :: bytes where
  "tag_IEND = [0x49, 0x45, 0x4E, 0x44]"

text \<open>The module-level constant of line 4. No statement of the script reads it.\<close>

definition green_pixel :: bytes where
  "green_pixel =
     [0x89, 0x50, 0x4E, 0x47, 0x0D, 0x0A, 0x1A, 0x0A,
      0x00, 0x00, 0x00, 0x0D, 0x49, 0x48, 0x44, 0x52,
      0x00, 0x00, 0x00, 0x01, 0x00, 0x00, 0x00, 0x01, 0x08, 0x02, 0x00, 0x00, 0x00,
      0x90, 0x77, 0x53, 0xDE,
      0x00, 0x00, 0x00, 0x0C, 0x49, 0x44, 0x41, 0x54,
      0x78, 0x9C, 0x63, 0xF8, 0x4F, 0xEA, 0x30, 0x00, 0x00, 0x02, 0xA1, 0x01,
      0x45, 0xB5, 0x18, 0xC9,
      0x00, 0x00, 0x00, 0x00, 0x49, 0x45, 0x4E, 0x44,
      0xAE, 0x42, 0x60, 0x82]"

subsection \<open>IHDR chunk (lines 15 to 25)\<close>

definition ihdr_data :: "int \<Rightarrow> error + bytes" where
  "ihdr_data sz =
     (let width = sz; height = sz; bit_depth = 8; color_type = 2;
          compression = 0; filter_method = 0; interlace = 0
      in struct_pack [(I, width), (I, height), (B, bit_depth), (B, color_type),
                      (B, compression), (B, filter_method), (B, interlace)])"

definition ihdr_chunk :: "int \<Rightarrow> error + bytes" where
  "ihdr_chunk sz =
     (case ihdr_data sz of
        Inl e \<Rightarrow> Inl e
      | Inr d \<Rightarrow>
          (let ihdr_crc = crc32 (tag_IHDR @ d) in
           case struct_pack [(I, 13)] of
             Inl e \<Rightarrow> Inl e
           | Inr len \<Rightarrow>
               (case struct_pack [(I, ihdr_crc)] of
                  Inl e \<Rightarrow> Inl e
                | Inr crc \<Rightarrow> Inr (len @ tag_IHDR @ d @ crc))))"

subsection \<open>Raw scanlines (lines 28 to 36)\<close>

text \<open>
  The two nested \<^verbatim>\<open>for\<close> loops over \<^verbatim>\<open>range(height)\<close> and \<^verbatim>\<open>range(width)\<close>, each
  as a recursion on the number of iterations left, with the value being built as the
  accumulator. \<^verbatim>\<open>range\<close> of a non-positive number is empty.
\<close>

fun scanline_loop :: "nat \<Rightarrow> bytes \<Rightarrow> bytes" where
  "scanline_loop 0 scanline = scanline"
| "scanline_loop (Suc k) scanline = scanline_loop k (scanline @ [0x4C, 0xAF, 0x50])"

fun scanlines_loop :: "nat \<Rightarrow> int \<Rightarrow> bytes list \<Rightarrow> bytes list" where
  "scanlines_loop 0 width scanlines = scanlines"
| "scanlines_loop (Suc k) width scanlines =
     scanlines_loop k width (scanlines @ [scanline_loop (nat width) [0x00]])"

definition raw_data :: "int \<Rightarrow> bytes" where
  "raw_data sz =
     (let width = sz; height = sz
      in concat (scanlines_loop (nat height) width []))"

subsection \<open>IDAT chunk (lines 37 to 39)\<close>

text \<open>
  \<^verbatim>\<open>zlib.compress\<close> is library code; the encoder takes it as the parameter \<open>compress\<close>,
  a function from the raw bytes to the compressed bytes. The length of its result is
  packed with the code \<^verbatim>\<open>I\<close>, which raises when it does not fit four bytes.
\<close>

definition idat_chunk :: "(bytes \<Rightarrow> bytes) \<Rightarrow> int \<Rightarrow> error + bytes" where
  "idat_chunk compress sz =
     (let compressed = compress (raw_data sz);
          idat_crc = crc32 (tag_IDAT @ compressed)
      in case struct_pack [(I, int (length compressed))] of
           Inl e \<Rightarrow> Inl e
         | Inr len \<Rightarrow>
             (case struct_pack [(I, idat_crc)] of
                Inl e \<Rightarrow> Inl e
              | Inr crc \<Rightarrow> Inr (len @ tag_IDAT @ compressed @ crc)))"

subsection \<open>IEND chunk (lines 42 and 43)\<close>

definition iend_chunk :: "error + bytes" where
  "iend_chunk =
     (let iend_crc = crc32 tag_IEND
      in case struct_pack [(I, 0)] of
           Inl e \<Rightarrow> Inl e
         | Inr len \<Rightarrow>
             (case struct_pack [(I, iend_crc)] of
                Inl e \<Rightarrow> Inl e
              | Inr crc \<Rightarrow> Inr (len @ tag_IEND @ crc)))"

subsection \<open>The complete byte stream (line 46)\<close>

text \<open>The statements run in the order of the source, so the first one that raises decides the error.\<close>

definition png_data :: "(bytes \<Rightarrow> bytes) \<Rightarrow> int \<Rightarrow> error + bytes" where
  "png_data compress sz =
     (case ihdr_chunk sz of
        Inl e \<Rightarrow> Inl e
      | Inr ihdr \<Rightarrow>
          (case idat_chunk compress sz of
             Inl e \<Rightarrow> Inl e
           | Inr idat \<Rightarrow>
               (case iend_chunk of
                  Inl e \<Rightarrow> Inl e
                | Inr iend \<Rightarrow> Inr (header @ ihdr @ idat @ iend))))"

subsection \<open>Writing the file (lines 48 to 50)\<close>

text \<open>
  The part of the outside world the script touches: the files by name, which names
  \<^verbatim>\<open>open(filename, 'wb')\<close> can open, how many bytes the file system takes for a name
  before a write to it fails (\<open>None\<close>: any number), and the lines printed. The
  \<^verbatim>\<open>with\<close> block runs in the order of the source. \<open>open_wb\<close> creates the file or
  truncates it; when it cannot, it raises \<^verbatim>\<open>OSError\<close> and leaves the files alone.
  \<open>write_bytes\<close> then stores the bytes; when the file system does not take them all, it
  raises \<^verbatim>\<open>OSError\<close> and the file keeps the part that was taken.
\<close>

record world =
  files :: "string \<rightharpoonup> bytes"
  writable :: "string \<Rightarrow> bool"
  room :: "string \<Rightarrow> nat option"
  stdout :: "string list"

definition open_wb :: "string \<Rightarrow> world \<Rightarrow> (error + unit) \<times> world" where
  "open_wb filename w =
     (if writable w filename then (Inr (), w\<lparr>files := (files w)(filename \<mapsto> [])\<rparr>)
      else (Inl OSError, w))"

definition write_bytes :: "string \<Rightarrow> bytes \<Rightarrow> world \<Rightarrow> (error + unit) \<times> world" where
  "write_bytes filename data w =
     (case room w filename of
        None \<Rightarrow> (Inr (), w\<lparr>files := (files w)(filename \<mapsto> data)\<rparr>)
      | Some k \<Rightarrow>
          if length data \<le> k then (Inr (), w\<lparr>files := (files w)(filename \<mapsto> data)\<rparr>)
          else (Inl OSError, w\<lparr>files := (files w)(filename \<mapsto> take k data)\<rparr>))"

definition print_line :: "string \<Rightarrow> world \<Rightarrow> world" where
  "print_line line w = w\<lparr>stdout := stdout w @ [line]\<rparr>"

text \<open>A write of \<open>n\<close> bytes to the name goes through.\<close>

definition has_room :: "world \<Rightarrow> string \<Rightarrow> nat \<Rightarrow> bool" where
  "has_room w filename n = (case room w filename of None \<Rightarrow> True | Some k \<Rightarrow> n \<le> k)"

definition create_icon ::
  "(bytes \<Rightarrow> bytes) \<Rightarrow> int \<Rightarrow> string \<Rightarrow> world \<Rightarrow> (error + unit) \<times> world" where
  "create_icon compress sz filename w =
     (case png_data compress sz of
        Inl e \<Rightarrow> (Inl e, w)
      | Inr data \<Rightarrow>
          (case open_wb filename w of
             (Inl e, w1) \<Rightarrow> (Inl e, w1)
           | (Inr _, w1) \<Rightarrow>
               (case write_bytes filename data w1 of
                  (Inl e, w2) \<Rightarrow> (Inl e, w2)
                | (Inr _, w2) \<Rightarrow> (Inr (), print_line (''Created '' @ filename) w2))))"

subsection \<open>The driver (lines 53 to 56)\<close>

text \<open>Four calls at module level; an exception that escapes one of them ends the script.\<close>

definition driver :: "(bytes \<Rightarrow> bytes) \<Rightarrow> world \<Rightarrow> (error + unit) \<times> world" where
  "driver compress w0 =
     (case create_icon compress 16 ''icon16.png'' w0 of
        (Inl e, w1) \<Rightarrow> (Inl e, w1)
      | (Inr _, w1) \<Rightarrow>
     (case create_icon compress 32 ''icon32.png'' w1 of
        (Inl e, w2) \<Rightarrow> (Inl e, w2)
      | (Inr _, w2) \<Rightarrow>
     (case create_icon compress 48 ''icon48.png'' w2 of
        (Inl e, w3) \<Rightarrow> (Inl e, w3)
      | (Inr _, w3) \<Rightarrow> create_icon compress 128 ''icon128.png'' w3)))"


section \<open>Reading the byte stream back\<close>

text \<open>
  The spec's side of the claims: how a reader takes the stream apart. None of this is in
  the script; it is what "length field", "stored CRC", "chunk" and "decoding" mean.
\<close>

subsection \<open>Fields and chunks\<close>

text \<open>A big-endian unsigned field read as a number.\<close>

definition unpack_I :: "bytes \<Rightarrow> int" where
  "unpack_I bs = foldl (\<lambda>a b. a * 256 + uint b) 0 bs"

text \<open>
  A serialized chunk as the spec words it: 4-byte big-endian length, 4-byte type,
  payload, 4-byte big-endian CRC over type and payload.
\<close>

definition serialized :: "bytes \<Rightarrow> bytes \<Rightarrow> bytes" where
  "serialized ty payload =
     be32 (int (length payload)) @ ty @ payload @ be32 (crc32 (ty @ payload))"

text \<open>The four fields of a chunk that stands alone, by position.\<close>

definition chunk_length_field :: "bytes \<Rightarrow> int" where
  "chunk_length_field c = unpack_I (take 4 c)"

definition chunk_type :: "bytes \<Rightarrow> bytes" where
  "chunk_type c = take 4 (drop 4 c)"

definition chunk_payload :: "bytes \<Rightarrow> bytes" where
  "chunk_payload c = take (length c - 12) (drop 8 c)"

definition chunk_crc_field :: "bytes \<Rightarrow> int" where
  "chunk_crc_field c = unpack_I (drop (length c - 4) c)"

text \<open>
  The stream the spec describes for a size: signature, then the IHDR, IDAT and IEND
  chunks serialized.
\<close>

definition png_layout :: "(bytes \<Rightarrow> bytes) \<Rightarrow> int \<Rightarrow> bytes" where
  "png_layout compress sz =
     [0x89, 0x50, 0x4E, 0x47, 0x0D, 0x0A, 0x1A, 0x0A]
     @ serialized [0x49, 0x48, 0x44, 0x52] (be32 sz @ be32 sz @ [8, 2, 0, 0, 0])
     @ serialized [0x49, 0x44, 0x41, 0x54] (compress (raw_data sz))
     @ serialized [0x49, 0x45, 0x4E, 0x44] []"

subsection \<open>A reader for the streams the script can write\<close>

text \<open>
  \<open>parse_chunk\<close> splits one chunk off the front and checks its CRC; \<open>parse_chunks\<close>
  reads chunks to the end of the input. They take the four bytes of a length field as
  they stand.
\<close>

definition parse_chunk :: "bytes \<Rightarrow> ((bytes \<times> bytes) \<times> bytes) option" where
  "parse_chunk bs =
     (if length bs < 12 then None
      else
        let n = nat (unpack_I (take 4 bs)); ty = take 4 (drop 4 bs)
        in if length bs < 12 + n then None
           else
             let payload = take n (drop 8 bs)
             in if unpack_I (take 4 (drop (8 + n) bs)) \<noteq> crc32 (ty @ payload) then None
                else Some ((ty, payload), drop (12 + n) bs))"

function parse_chunks :: "bytes \<Rightarrow> (bytes \<times> bytes) list option" where
  "parse_chunks bs =
     (if bs = [] then Some []
      else case parse_chunk bs of
             None \<Rightarrow> None
           | Some (c, rest) \<Rightarrow>
               (case parse_chunks rest of None \<Rightarrow> None | Some cs \<Rightarrow> Some (c # cs)))"
  by pat_completeness auto
termination
  by (relation "measure length") (auto simp add: parse_chunk_def Let_def split: if_splits)

declare parse_chunks.simps [simp del]

text \<open>
  A conforming PNG reader is stricter: a four-byte integer of the format ends at
  \<open>2^31 - 1\<close>. \<open>png_chunk\<close> and \<open>png_chunks\<close> refuse a longer chunk, and \<open>decode_png\<close>
  refuses a width or height of 0 or above that limit. \<open>decode_png\<close> accepts 8-bit
  truecolour, non-interlaced images whose rows all have filter type 0, with IHDR first
  and IEND last, and returns width, height and the rows of pixels. The inverse of the
  compressor is the parameter \<open>decompress\<close>.
\<close>

definition png_chunk :: "bytes \<Rightarrow> ((bytes \<times> bytes) \<times> bytes) option" where
  "png_chunk bs =
     (if 2147483647 < unpack_I (take 4 bs) then None else parse_chunk bs)"

function png_chunks :: "bytes \<Rightarrow> (bytes \<times> bytes) list option" where
  "png_chunks bs =
     (if bs = [] then Some []
      else case png_chunk bs of
             None \<Rightarrow> None
           | Some (c, rest) \<Rightarrow>
               (case png_chunks rest of None \<Rightarrow> None | Some cs \<Rightarrow> Some (c # cs)))"
  by pat_completeness auto
termination
  by (relation "measure length")
    (auto simp add: png_chunk_def parse_chunk_def Let_def split: if_splits)

declare png_chunks.simps [simp del]

fun pixels :: "bytes \<Rightarrow> (byte \<times> byte \<times> byte) list" where
  "pixels (r # g # b # rest) = (r, g, b) # pixels rest"
| "pixels _ = []"

fun rows_of :: "nat \<Rightarrow> nat \<Rightarrow> bytes \<Rightarrow> bytes list" where
  "rows_of 0 n bs = []"
| "rows_of (Suc k) n bs = take n bs # rows_of k n (drop n bs)"

definition decode_png ::
  "(bytes \<Rightarrow> bytes option) \<Rightarrow> bytes \<Rightarrow> (nat \<times> nat \<times> (byte \<times> byte \<times> byte) list list) option" where
  "decode_png decompress bs =
     (if take 8 bs \<noteq> [0x89, 0x50, 0x4E, 0x47, 0x0D, 0x0A, 0x1A, 0x0A] then None
      else case png_chunks (drop 8 bs) of
        None \<Rightarrow> None
      | Some [] \<Rightarrow> None
      | Some ((ty, ihdr) # rest) \<Rightarrow>
          if ty \<noteq> [0x49, 0x48, 0x44, 0x52] \<or> length ihdr \<noteq> 13 \<or> drop 8 ihdr \<noteq> [8, 2, 0, 0, 0]
             \<or> rest = [] \<or> last rest \<noteq> ([0x49, 0x45, 0x4E, 0x44], [])
          then None
          else
            let w = nat (unpack_I (take 4 ihdr));
                h = nat (unpack_I (take 4 (drop 4 ihdr)));
                idat = concat (map snd (filter (\<lambda>c. fst c = [0x49, 0x44, 0x41, 0x54]) rest))
            in if w = 0 \<or> h = 0 \<or> 2147483647 < w \<or> 2147483647 < h then None
               else case decompress idat of
                 None \<Rightarrow> None
               | Some raw \<Rightarrow>
                   if length raw \<noteq> h * (1 + 3 * w) then None
                   else
                     let rows = rows_of h (1 + 3 * w) raw
                     in if list_ex (\<lambda>row. take 1 row \<noteq> [0x00]) rows then None
                        else Some (w, h, map (\<lambda>row. pixels (drop 1 row)) rows))"

section \<open>A compressor to instantiate the parameter\<close>

text \<open>
  The encoder is verified for any \<open>compress\<close>. Where a concrete one is needed, this is
  one that writes the zlib format: the two header bytes, the input in stored (uncompressed)
  deflate blocks of at most 65535 bytes, and the Adler-32 checksum. \<open>stored_decompress\<close>
  reads that format back.
\<close>

definition le16 :: "nat \<Rightarrow> bytes" where
  "le16 n = [of_nat n, of_nat (n div 256)]"

definition adler32 :: "bytes \<Rightarrow> int" where
  "adler32 bs =
     (let (a, b) = foldl (\<lambda>(a, b) x. ((a + uint x) mod 65521, (b + (a + uint x) mod 65521) mod 65521))
                         (1, 0) bs
      in b * 65536 + a)"

function stored_blocks :: "bytes \<Rightarrow> bytes" where
  "stored_blocks bs =
     (if length bs \<le> 65535
      then [0x01] @ le16 (length bs) @ le16 (65535 - length bs) @ bs
      else [0x00, 0xFF, 0xFF, 0x00, 0x00] @ take 65535 bs @ stored_blocks (drop 65535 bs))"
  by pat_completeness auto
termination
  by (relation "measure length") auto

declare stored_blocks.simps [simp del]

definition stored_compress :: "bytes \<Rightarrow> bytes" where
  "stored_compress bs = [0x78, 0x01] @ stored_blocks bs @ be32 (adler32 bs)"

function inflate_stored :: "bytes \<Rightarrow> (bytes \<times> bytes) option" where
  "inflate_stored bs =
     (case bs of
        f # l0 # l1 # n0 # n1 # rest \<Rightarrow>
          let len = unat l0 + 256 * unat l1
          in if unat n0 + 256 * unat n1 \<noteq> 65535 - len \<or> length rest < len then None
             else if f = 0x01 then Some (take len rest, drop len rest)
             else if f = 0x00 then
               (case inflate_stored (drop len rest) of
                  None \<Rightarrow> None
                | Some (d, r) \<Rightarrow> Some (take len rest @ d, r))
             else None
      | _ \<Rightarrow> None)"
  by pat_completeness auto
termination
  by (relation "measure length") auto

declare inflate_stored.simps [simp del]

definition stored_decompress :: "bytes \<Rightarrow> bytes option" where
  "stored_decompress bs =
     (case bs of
        c # f # rest \<Rightarrow>
          if c \<noteq> 0x78 \<or> f \<noteq> 0x01 then None
          else (case inflate_stored rest of
                  None \<Rightarrow> None
                | Some (d, r) \<Rightarrow> if r = be32 (adler32 d) then Some d else None)
      | _ \<Rightarrow> None)"

text \<open>
  States of the outside world with no files yet: every name can be opened and written in
  full; every name but one can be opened; one name takes only the first 8 bytes.
\<close>

definition world0 :: world where
  "world0 = \<lparr>files = Map.empty, writable = (\<lambda>f. True), room = (\<lambda>f. None), stdout = []\<rparr>"

definition world_locked :: "string \<Rightarrow> world" where
  "world_locked name =
     \<lparr>files = Map.empty, writable = (\<lambda>f. f \<noteq> name), room = (\<lambda>f. None), stdout = []\<rparr>"

definition world_full :: "string \<Rightarrow> world" where
  "world_full name =
     \<lparr>files = Map.empty, writable = (\<lambda>f. True),
      room = (\<lambda>f. if f = name then Some 8 else None), stdout = []\<rparr>"

section \<open>Properties of the scanline loops\<close>

lemma scanline_loop_eq:
  "scanline_loop k acc = acc @ concat (replicate k [0x4C, 0xAF, 0x50])"
proof (induction k arbitrary: acc)
  case 0
  show ?case by simp
next
  case (Suc k)
  have "concat (replicate k [0x4C, 0xAF, 0x50 :: byte]) @ [0x4C, 0xAF, 0x50]
        = [0x4C, 0xAF, 0x50] @ concat (replicate k [0x4C, 0xAF, 0x50])"
    by (induction k) simp_all
  then show ?case using Suc.IH [of "acc @ [0x4C, 0xAF, 0x50]"] by simp
qed

lemma scanlines_loop_eq:
  "scanlines_loop k width acc = acc @ replicate k (scanline_loop (nat width) [0x00])"
proof (induction k arbitrary: acc)
  case 0
  show ?case by simp
next
  case (Suc k)
  show ?case
    using Suc.IH [of "acc @ [scanline_loop (nat width) [0x00]]"]
    by (simp add: replicate_append_same)
qed

lemma raw_data_eq:
  "raw_data sz =
     concat (replicate (nat sz) (0x00 # concat (replicate (nat sz) [0x4C, 0xAF, 0x50])))"
  by (simp add: raw_data_def scanlines_loop_eq scanline_loop_eq)

lemma length_concat_replicate:
  "length (concat (replicate k xs)) = k * length xs"
  by (induction k) simp_all

lemma length_raw_data:
  "length (raw_data sz) = nat sz * (1 + 3 * nat sz)"
  by (simp add: raw_data_eq length_concat_replicate)


section \<open>Packing and unpacking\<close>

lemma crc32_range: "0 \<le> crc32 bs \<and> crc32 bs \<le> 4294967295"
  using uint_lt2p [of "foldl crc_byte 0xFFFFFFFF bs XOR (0xFFFFFFFF :: 32 word)"]
  by (simp add: crc32_def)

lemma pack_I: "0 \<le> v \<Longrightarrow> v \<le> 4294967295 \<Longrightarrow> pack_field I v = Inr (be32 v)"
  by (simp add: pack_field_def)

lemma pack_I_fail: "v < 0 \<or> 4294967295 < v \<Longrightarrow> struct_pack ((I, v) # rest) = Inl StructError"
  by (auto simp add: pack_field_def)

lemma uint_byte_of_int: "uint (of_int k :: byte) = k mod 256"
  by (simp add: uint_word_of_int_eq take_bit_eq_mod)

lemma unpack_be32:
  assumes "0 \<le> v" "v \<le> 4294967295"
  shows "unpack_I (be32 v) = v"
proof -
  have a: "v div 16777216 mod 256 = v div 16777216"
    using assms by (intro mod_pos_pos_trivial) auto
  have e1: "v div 65536 div 256 = v div 16777216"
    using zdiv_zmult2_eq [of 256 v 65536] by simp
  have e2: "v div 256 div 256 = v div 65536"
    using zdiv_zmult2_eq [of 256 v 256] by simp
  have b: "v div 65536 = (v div 16777216) * 256 + v div 65536 mod 256"
    using div_mult_mod_eq [of "v div 65536" 256] e1 by simp
  have c: "v div 256 = (v div 65536) * 256 + v div 256 mod 256"
    using div_mult_mod_eq [of "v div 256" 256] e2 by simp
  have d: "v = (v div 256) * 256 + v mod 256"
    by simp
  have "unpack_I (be32 v)
        = ((v div 16777216 * 256 + v div 65536 mod 256) * 256 + v div 256 mod 256) * 256 + v mod 256"
    by (simp add: unpack_I_def be32_def uint_byte_of_int a)
  also have "\<dots> = (v div 65536 * 256 + v div 256 mod 256) * 256 + v mod 256"
    by (simp only: b [symmetric])
  also have "\<dots> = v div 256 * 256 + v mod 256"
    by (simp only: c [symmetric])
  also have "\<dots> = v"
    by (simp only: d [symmetric])
  finally show ?thesis .
qed

lemma length_be32: "length (be32 v) = 4"
  by (simp add: be32_def)

lemma ihdr_data_ok:
  "0 \<le> sz \<Longrightarrow> sz \<le> 4294967295 \<Longrightarrow> ihdr_data sz = Inr (be32 sz @ be32 sz @ [8, 2, 0, 0, 0])"
  by (simp add: ihdr_data_def pack_field_def)

lemma ihdr_data_fail:
  "sz < 0 \<or> 4294967295 < sz \<Longrightarrow> ihdr_data sz = Inl StructError"
  by (auto simp add: ihdr_data_def pack_field_def)

lemma ihdr_chunk_ok:
  assumes "0 \<le> sz" "sz \<le> 4294967295"
  shows "ihdr_chunk sz = Inr (serialized tag_IHDR (be32 sz @ be32 sz @ [8, 2, 0, 0, 0]))"
  using assms crc32_range [of "tag_IHDR @ be32 sz @ be32 sz @ [8, 2, 0, 0, 0]"]
  by (simp add: ihdr_chunk_def ihdr_data_ok pack_I serialized_def length_be32)

lemma ihdr_chunk_fail:
  "sz < 0 \<or> 4294967295 < sz \<Longrightarrow> ihdr_chunk sz = Inl StructError"
  by (simp add: ihdr_chunk_def ihdr_data_fail)

lemma idat_chunk_ok:
  assumes "length (compress (raw_data sz)) \<le> 4294967295"
  shows "idat_chunk compress sz = Inr (serialized tag_IDAT (compress (raw_data sz)))"
  using assms crc32_range [of "tag_IDAT @ compress (raw_data sz)"]
  by (simp add: idat_chunk_def pack_I serialized_def Let_def)

lemma idat_chunk_fail:
  assumes "4294967295 < length (compress (raw_data sz))"
  shows "idat_chunk compress sz = Inl StructError"
  using assms by (simp add: idat_chunk_def Let_def pack_field_def)

lemma iend_chunk_ok: "iend_chunk = Inr (serialized tag_IEND [])"
  using crc32_range [of tag_IEND]
  by (simp add: iend_chunk_def pack_I serialized_def Let_def)

lemma png_data_ok:
  assumes "0 \<le> sz" "sz \<le> 4294967295" "length (compress (raw_data sz)) \<le> 4294967295"
  shows "png_data compress sz = Inr (png_layout compress sz)"
  using assms
  by (simp add: png_data_def ihdr_chunk_ok idat_chunk_ok iend_chunk_ok png_layout_def
      header_def tag_IHDR_def tag_IDAT_def tag_IEND_def)

lemma png_data_fail:
  assumes "sz < 0 \<or> 4294967295 < sz \<or> 4294967295 < length (compress (raw_data sz))"
  shows "png_data compress sz = Inl StructError"
proof (cases "sz < 0 \<or> 4294967295 < sz")
  case True
  then show ?thesis by (simp add: png_data_def ihdr_chunk_fail)
next
  case False
  with assms have "4294967295 < length (compress (raw_data sz))" by simp
  with False show ?thesis
    by (simp add: png_data_def ihdr_chunk_ok idat_chunk_fail)
qed

lemma length_serialized:
  "length (serialized ty p) = 8 + length ty + length p"
  by (simp add: serialized_def length_be32)

lemma take4_be32: "take 4 (be32 v @ xs) = be32 v"
  by (simp add: length_be32)

lemma parse_chunk_serialized:
  assumes "length ty = 4" "length p \<le> 4294967295"
  shows "parse_chunk (serialized ty p @ rest) = Some ((ty, p), rest)"
proof -
  let ?bs = "serialized ty p @ rest"
  have n: "nat (unpack_I (take 4 ?bs)) = length p"
    using assms by (simp add: serialized_def length_be32 unpack_be32)
  have ty: "take 4 (drop 4 ?bs) = ty"
    using assms by (simp add: serialized_def length_be32)
  have p: "take (length p) (drop 8 ?bs) = p"
    using assms by (simp add: serialized_def length_be32)
  have c: "take 4 (drop (8 + length p) ?bs) = be32 (crc32 (ty @ p))"
    using assms by (simp add: serialized_def length_be32)
  have r: "drop (12 + length p) ?bs = rest"
    using assms by (simp add: serialized_def length_be32)
  have l: "\<not> length ?bs < 12 + length p" "\<not> length ?bs < 12"
    using assms by (simp_all add: length_serialized)
  have u: "unpack_I (be32 (crc32 (ty @ p))) = crc32 (ty @ p)"
    using crc32_range [of "ty @ p"] by (simp add: unpack_be32)
  show ?thesis
    unfolding parse_chunk_def Let_def n ty p c r u using l by simp
qed

lemma parse_chunks_serialized:
  assumes "length ty = 4" "length p \<le> 4294967295"
  shows "parse_chunks (serialized ty p @ rest) =
           (case parse_chunks rest of None \<Rightarrow> None | Some cs \<Rightarrow> Some ((ty, p) # cs))"
proof -
  have ne: "serialized ty p \<noteq> []"
    by (simp add: serialized_def be32_def)
  show ?thesis
    by (subst parse_chunks.simps) (simp add: ne parse_chunk_serialized [OF assms])
qed

lemma parse_chunks_Nil: "parse_chunks [] = Some []"
  by (subst parse_chunks.simps) simp

lemma parse_png_layout:
  assumes "length (compress (raw_data sz)) \<le> 4294967295"
  shows "parse_chunks (drop 8 (png_layout compress sz)) =
           Some [([0x49, 0x48, 0x44, 0x52], be32 sz @ be32 sz @ [8, 2, 0, 0, 0]),
                 ([0x49, 0x44, 0x41, 0x54], compress (raw_data sz)),
                 ([0x49, 0x45, 0x4E, 0x44], [])]"
proof -
  have "parse_chunks (serialized [0x49, 0x45, 0x4E, 0x44] [] @ []) = Some [([0x49, 0x45, 0x4E, 0x44], [])]"
    by (subst parse_chunks_serialized) (simp_all add: parse_chunks_Nil)
  then have 3: "parse_chunks (serialized [0x49, 0x45, 0x4E, 0x44] []) = Some [([0x49, 0x45, 0x4E, 0x44], [])]"
    by simp
  have 2: "parse_chunks (serialized [0x49, 0x44, 0x41, 0x54] (compress (raw_data sz))
             @ serialized [0x49, 0x45, 0x4E, 0x44] [])
           = Some [([0x49, 0x44, 0x41, 0x54], compress (raw_data sz)), ([0x49, 0x45, 0x4E, 0x44], [])]"
    using assms by (subst parse_chunks_serialized) (simp_all add: 3)
  have 1: "parse_chunks (serialized [0x49, 0x48, 0x44, 0x52] (be32 sz @ be32 sz @ [8, 2, 0, 0, 0])
             @ serialized [0x49, 0x44, 0x41, 0x54] (compress (raw_data sz))
             @ serialized [0x49, 0x45, 0x4E, 0x44] [])
           = Some [([0x49, 0x48, 0x44, 0x52], be32 sz @ be32 sz @ [8, 2, 0, 0, 0]),
                   ([0x49, 0x44, 0x41, 0x54], compress (raw_data sz)), ([0x49, 0x45, 0x4E, 0x44], [])]"
    by (subst parse_chunks_serialized) (simp_all add: 2 length_be32)
  show ?thesis
    by (simp add: png_layout_def 1)
qed

lemma pixels_replicate:
  "pixels (concat (replicate k [r, g, b])) = replicate k (r, g, b)"
  by (induction k) simp_all

lemma rows_of_replicate:
  "length row = n \<Longrightarrow> rows_of k n (concat (replicate k row)) = replicate k row"
  by (induction k) simp_all

lemma png_chunk_serialized:
  assumes "length ty = 4" "length p \<le> 2147483647"
  shows "png_chunk (serialized ty p @ rest) = Some ((ty, p), rest)"
proof -
  have "unpack_I (take 4 (serialized ty p @ rest)) = int (length p)"
    using assms by (simp add: serialized_def length_be32 unpack_be32)
  moreover have "length p \<le> 4294967295"
    using assms(2) by simp
  ultimately show ?thesis
    using assms by (simp add: png_chunk_def parse_chunk_serialized)
qed

lemma png_chunks_serialized:
  assumes "length ty = 4" "length p \<le> 2147483647"
  shows "png_chunks (serialized ty p @ rest) =
           (case png_chunks rest of None \<Rightarrow> None | Some cs \<Rightarrow> Some ((ty, p) # cs))"
proof -
  have ne: "serialized ty p \<noteq> []"
    by (simp add: serialized_def be32_def)
  show ?thesis
    by (subst png_chunks.simps) (simp add: ne png_chunk_serialized [OF assms])
qed

lemma png_chunks_Nil: "png_chunks [] = Some []"
  by (subst png_chunks.simps) simp

lemma png_chunks_layout:
  assumes "length (compress (raw_data sz)) \<le> 2147483647"
  shows "png_chunks (drop 8 (png_layout compress sz)) =
           Some [([0x49, 0x48, 0x44, 0x52], be32 sz @ be32 sz @ [8, 2, 0, 0, 0]),
                 ([0x49, 0x44, 0x41, 0x54], compress (raw_data sz)),
                 ([0x49, 0x45, 0x4E, 0x44], [])]"
proof -
  have "png_chunks (serialized [0x49, 0x45, 0x4E, 0x44] [] @ []) = Some [([0x49, 0x45, 0x4E, 0x44], [])]"
    by (subst png_chunks_serialized) (simp_all add: png_chunks_Nil)
  then have 3: "png_chunks (serialized [0x49, 0x45, 0x4E, 0x44] []) = Some [([0x49, 0x45, 0x4E, 0x44], [])]"
    by simp
  have 2: "png_chunks (serialized [0x49, 0x44, 0x41, 0x54] (compress (raw_data sz))
             @ serialized [0x49, 0x45, 0x4E, 0x44] [])
           = Some [([0x49, 0x44, 0x41, 0x54], compress (raw_data sz)), ([0x49, 0x45, 0x4E, 0x44], [])]"
    using assms by (subst png_chunks_serialized) (simp_all add: 3)
  have 1: "png_chunks (serialized [0x49, 0x48, 0x44, 0x52] (be32 sz @ be32 sz @ [8, 2, 0, 0, 0])
             @ serialized [0x49, 0x44, 0x41, 0x54] (compress (raw_data sz))
             @ serialized [0x49, 0x45, 0x4E, 0x44] [])
           = Some [([0x49, 0x48, 0x44, 0x52], be32 sz @ be32 sz @ [8, 2, 0, 0, 0]),
                   ([0x49, 0x44, 0x41, 0x54], compress (raw_data sz)), ([0x49, 0x45, 0x4E, 0x44], [])]"
    by (subst png_chunks_serialized) (simp_all add: 2 length_be32)
  show ?thesis
    by (simp add: png_layout_def 1)
qed

lemma decode_png_three_chunks:
  assumes "take 8 bs = [0x89, 0x50, 0x4E, 0x47, 0x0D, 0x0A, 0x1A, 0x0A]"
    and "png_chunks (drop 8 bs) =
           Some [([0x49, 0x48, 0x44, 0x52], ihdr), ([0x49, 0x44, 0x41, 0x54], z),
                 ([0x49, 0x45, 0x4E, 0x44], [])]"
    and "length ihdr = 13" "drop 8 ihdr = [8, 2, 0, 0, 0]"
    and "nat (unpack_I (take 4 ihdr)) = w" "nat (unpack_I (take 4 (drop 4 ihdr))) = h"
    and "w \<noteq> 0" "h \<noteq> 0" "w \<le> 2147483647" "h \<le> 2147483647"
    and "decompress z = Some raw" "length raw = h * (1 + 3 * w)"
    and "rows_of h (1 + 3 * w) raw = rows"
    and "\<not> list_ex (\<lambda>row. take 1 row \<noteq> [0x00]) rows"
  shows "decode_png decompress bs = Some (w, h, map (\<lambda>row. pixels (drop 1 row)) rows)"
  using assms by (simp add: decode_png_def Let_def)

lemma decode_png_layout:
  assumes "0 < sz" "sz \<le> 2147483647"
    and "length (compress (raw_data sz)) \<le> 2147483647"
    and "decompress (compress (raw_data sz)) = Some (raw_data sz)"
  shows "decode_png decompress (png_layout compress sz) =
           Some (nat sz, nat sz, replicate (nat sz) (replicate (nat sz) (0x4C, 0xAF, 0x50)))"
proof -
  let ?row = "0x00 # concat (replicate (nat sz) [0x4C, 0xAF, 0x50 :: byte])"
  have sig: "take 8 (png_layout compress sz) = [0x89, 0x50, 0x4E, 0x47, 0x0D, 0x0A, 0x1A, 0x0A]"
    by (simp add: png_layout_def)
  have w: "nat (unpack_I (take 4 (be32 sz @ be32 sz @ [8, 2, 0, 0, 0]))) = nat sz"
    using assms(1,2) by (simp add: length_be32 unpack_be32)
  have h: "nat (unpack_I (take 4 (drop 4 (be32 sz @ be32 sz @ [8, 2, 0, 0, 0])))) = nat sz"
    using assms(1,2) by (simp add: length_be32 unpack_be32)
  have shape: "length (be32 sz @ be32 sz @ [8, 2, 0, 0, 0]) = 13"
    "drop 8 (be32 sz @ be32 sz @ [8, 2, 0, 0, 0]) = [8, 2, 0, 0, 0]"
    by (simp_all add: length_be32)
  have len_row: "length ?row = 1 + 3 * nat sz"
    by (simp add: length_concat_replicate)
  have len: "length (raw_data sz) = nat sz * (1 + 3 * nat sz)"
    by (rule length_raw_data)
  have rows: "rows_of (nat sz) (1 + 3 * nat sz) (raw_data sz) = replicate (nat sz) ?row"
    unfolding raw_data_eq using len_row by (rule rows_of_replicate)
  have filt: "\<not> list_ex (\<lambda>row. take 1 row \<noteq> [0x00]) (replicate (nat sz) ?row)"
    by (simp add: list_ex_iff)
  have pix: "map (\<lambda>row. pixels (drop 1 row)) (replicate (nat sz) ?row)
             = replicate (nat sz) (replicate (nat sz) (0x4C, 0xAF, 0x50))"
    by (simp add: pixels_replicate)
  have pos: "nat sz \<noteq> 0"
    using assms(1) by simp
  have small: "nat sz \<le> 2147483647"
    using assms(2) by simp
  have chunks: "png_chunks (drop 8 (png_layout compress sz)) =
           Some [([0x49, 0x48, 0x44, 0x52], be32 sz @ be32 sz @ [8, 2, 0, 0, 0]),
                 ([0x49, 0x44, 0x41, 0x54], compress (raw_data sz)),
                 ([0x49, 0x45, 0x4E, 0x44], [])]"
    using assms(3) by (rule png_chunks_layout)
  have "decode_png decompress (png_layout compress sz) =
          Some (nat sz, nat sz, map (\<lambda>row. pixels (drop 1 row)) (replicate (nat sz) ?row))"
    using sig chunks shape w h pos pos small small assms(4) len rows filt
    by (rule decode_png_three_chunks)
  then show ?thesis
    by (simp only: pix)
qed

lemma decode_png_wide:
  assumes "png_chunks (drop 8 bs) = Some ((ty, ihdr) # rest)"
    and "2147483647 < nat (unpack_I (take 4 ihdr))"
  shows "decode_png decompress bs = None"
  using assms by (simp add: decode_png_def Let_def)

text \<open>
  From \<open>2^31\<close> on the script still writes a stream, but its IHDR carries a width that a
  conforming reader refuses.
\<close>

lemma decode_png_layout_wide:
  assumes "2147483647 < sz" "sz \<le> 4294967295"
  shows "decode_png decompress (png_layout compress sz) = None"
proof -
  let ?d = "be32 sz @ be32 sz @ [8, 2, 0, 0, 0]"
  let ?rest = "serialized [0x49, 0x44, 0x41, 0x54] (compress (raw_data sz))
                 @ serialized [0x49, 0x45, 0x4E, 0x44] []"
  have split: "drop 8 (png_layout compress sz) = serialized [0x49, 0x48, 0x44, 0x52] ?d @ ?rest"
    by (simp add: png_layout_def)
  have c: "png_chunks (serialized [0x49, 0x48, 0x44, 0x52] ?d @ ?rest) =
             (case png_chunks ?rest of None \<Rightarrow> None
              | Some cs \<Rightarrow> Some (([0x49, 0x48, 0x44, 0x52], ?d) # cs))"
    by (rule png_chunks_serialized) (simp_all add: length_be32)
  have w: "2147483647 < nat (unpack_I (take 4 ?d))"
    using assms by (simp add: length_be32 unpack_be32)
  show ?thesis
  proof (cases "png_chunks ?rest")
    case None
    then have "png_chunks (drop 8 (png_layout compress sz)) = None"
      by (simp only: split c option.case)
    then show ?thesis
      by (simp add: decode_png_def)
  next
    case (Some cs)
    then have "png_chunks (drop 8 (png_layout compress sz)) = Some (([0x49, 0x48, 0x44, 0x52], ?d) # cs)"
      by (simp only: split c option.case)
    then show ?thesis
      using w by (rule decode_png_wide)
  qed
qed

lemma unat_le16:
  assumes "n \<le> 65535"
  shows "unat (of_nat n :: byte) + 256 * unat (of_nat (n div 256) :: byte) = n"
proof -
  have "n div 256 < 256" using assms by simp
  then have "n div 256 mod 256 = n div 256" by simp
  then show ?thesis
    by (simp add: unat_of_nat)
qed

lemma length_stored_compress:
  "length bs \<le> 65535 \<Longrightarrow> length (stored_compress bs) = length bs + 11"
  by (simp add: stored_compress_def stored_blocks.simps [of bs] le16_def length_be32)

lemma stored_roundtrip:
  assumes "length bs \<le> 65535"
  shows "stored_decompress (stored_compress bs) = Some bs"
proof -
  have 1: "unat (of_nat (length bs) :: byte) + 256 * unat (of_nat (length bs div 256) :: byte) = length bs"
    using assms by (rule unat_le16)
  have 2: "unat (of_nat (65535 - length bs) :: byte) + 256 * unat (of_nat ((65535 - length bs) div 256) :: byte)
           = 65535 - length bs"
    by (rule unat_le16) simp
  have "inflate_stored (stored_blocks bs @ be32 (adler32 bs)) = Some (bs, be32 (adler32 bs))"
    using assms
    by (subst inflate_stored.simps) (simp add: stored_blocks.simps [of bs] le16_def 1 2 Let_def del: of_nat_diff)
  then show ?thesis
    by (simp add: stored_decompress_def stored_compress_def)
qed

section \<open>The checksum on known bytes\<close>

text \<open>
  The CRC fields that the source itself spells out in \<open>green_pixel\<close>, for the IHDR chunk
  of a 1 by 1 image and for the IEND chunk, are the ones the model computes.
\<close>

lemma funpow8: "(f ^^ 8) x = f (f (f (f (f (f (f (f x)))))))"
  by (simp add: eval_nat_numeral)

lemma crc32_IEND: "crc32 tag_IEND = 0xAE426082"
  by (simp add: tag_IEND_def crc32_def crc_byte_def funpow8 crc_shift_def)

lemma crc32_IHDR_1x1:
  "crc32 (tag_IHDR @ [0, 0, 0, 1, 0, 0, 0, 1, 8, 2, 0, 0, 0]) = 0x907753DE"
  by (simp add: tag_IHDR_def crc32_def crc_byte_def funpow8 crc_shift_def)

lemma iend_chunk_bytes:
  "iend_chunk = Inr [0x00, 0x00, 0x00, 0x00, 0x49, 0x45, 0x4E, 0x44, 0xAE, 0x42, 0x60, 0x82]"
proof -
  have "serialized tag_IEND [] = be32 0 @ tag_IEND @ be32 0xAE426082"
    by (simp add: serialized_def crc32_IEND)
  also have "\<dots> = [0x00, 0x00, 0x00, 0x00, 0x49, 0x45, 0x4E, 0x44, 0xAE, 0x42, 0x60, 0x82]"
    by (simp add: be32_def tag_IEND_def)
  finally show ?thesis
    by (simp add: iend_chunk_ok)
qed

lemma green_pixel_chunks:
  "take 8 green_pixel = header"
  "ihdr_chunk 1 = Inr (take 25 (drop 8 green_pixel))"
  "iend_chunk = Inr (drop 57 green_pixel)"
proof -
  show "take 8 green_pixel = header"
    by (simp add: green_pixel_def header_def)
  have "be32 1 = [0, 0, 0, 1]" "be32 13 = [0, 0, 0, 13]" "be32 0x907753DE = [0x90, 0x77, 0x53, 0xDE]"
    by (simp_all add: be32_def)
  then have "serialized tag_IHDR (be32 1 @ be32 1 @ [8, 2, 0, 0, 0])
             = [0, 0, 0, 13] @ tag_IHDR @ [0, 0, 0, 1, 0, 0, 0, 1, 8, 2, 0, 0, 0] @ [0x90, 0x77, 0x53, 0xDE]"
    by (simp add: serialized_def crc32_IHDR_1x1)
  then show "ihdr_chunk 1 = Inr (take 25 (drop 8 green_pixel))"
    by (simp add: ihdr_chunk_ok green_pixel_def tag_IHDR_def)
  show "iend_chunk = Inr (drop 57 green_pixel)"
    by (simp add: iend_chunk_bytes green_pixel_def)
qed

section \<open>The encoder as a whole\<close>

lemma chunk_fields_serialized:
  assumes "length ty = 4" "length p \<le> 4294967295"
  shows "chunk_length_field (serialized ty p) = int (length p)"
    and "chunk_type (serialized ty p) = ty"
    and "chunk_payload (serialized ty p) = p"
    and "chunk_crc_field (serialized ty p) = crc32 (ty @ p)"
proof -
  show "chunk_length_field (serialized ty p) = int (length p)"
    using assms by (simp add: chunk_length_field_def serialized_def length_be32 unpack_be32)
  show "chunk_type (serialized ty p) = ty"
    using assms by (simp add: chunk_type_def serialized_def length_be32)
  show "chunk_payload (serialized ty p) = p"
    using assms by (simp add: chunk_payload_def serialized_def length_be32)
  have "drop (length (serialized ty p) - 4) (serialized ty p) = be32 (crc32 (ty @ p))"
    using assms by (simp add: serialized_def length_be32)
  then show "chunk_crc_field (serialized ty p) = crc32 (ty @ p)"
    using crc32_range [of "ty @ p"] by (simp add: chunk_crc_field_def unpack_be32)
qed

lemma length_png_layout:
  "length (png_layout compress sz) = 57 + length (compress (raw_data sz))"
  by (simp add: png_layout_def length_serialized length_be32)

lemma create_icon_ok:
  assumes "0 \<le> sz" "sz \<le> 4294967295" "length (compress (raw_data sz)) \<le> 4294967295"
    and "writable w filename"
    and "has_room w filename (length (png_layout compress sz))"
  shows "create_icon compress sz filename w =
           (Inr (), w\<lparr>files := (files w)(filename \<mapsto> png_layout compress sz),
                        stdout := stdout w @ [''Created '' @ filename]\<rparr>)"
  using assms
  by (simp add: create_icon_def png_data_ok open_wb_def write_bytes_def print_line_def
      has_room_def split: option.splits)

lemma create_icon_locked:
  assumes "0 \<le> sz" "sz \<le> 4294967295" "length (compress (raw_data sz)) \<le> 4294967295"
    and "\<not> writable w filename"
  shows "create_icon compress sz filename w = (Inl OSError, w)"
  using assms by (simp add: create_icon_def png_data_ok open_wb_def)

lemma create_icon_short:
  assumes "0 \<le> sz" "sz \<le> 4294967295" "length (compress (raw_data sz)) \<le> 4294967295"
    and "writable w filename"
    and "room w filename = Some k" "k < length (png_layout compress sz)"
  shows "create_icon compress sz filename w =
           (Inl OSError, w\<lparr>files := (files w)(filename \<mapsto> take k (png_layout compress sz))\<rparr>)"
  using assms
  by (simp add: create_icon_def png_data_ok open_wb_def write_bytes_def)

lemma create_icon_unpackable:
  assumes "sz < 0 \<or> 4294967295 < sz \<or> 4294967295 < length (compress (raw_data sz))"
  shows "create_icon compress sz filename w = (Inl StructError, w)"
  using assms by (simp add: create_icon_def png_data_fail)

lemma length_stored_raw:
  assumes "0 \<le> sz" "sz \<le> 128"
  shows "length (stored_compress (raw_data sz)) \<le> 4294967295"
proof -
  have "nat sz \<le> 128" using assms by simp
  then have "nat sz * (1 + 3 * nat sz) \<le> 128 * (1 + 3 * 128)"
    by (intro mult_le_mono add_le_mono) simp_all
  then have "length (raw_data sz) \<le> 65535"
    by (simp add: length_raw_data)
  then show ?thesis
    by (simp add: length_stored_compress)
qed

lemma length_stored_raw_png:
  assumes "0 \<le> sz" "sz \<le> 128"
  shows "length (stored_compress (raw_data sz)) \<le> 2147483647"
proof -
  have "nat sz \<le> 128" using assms by simp
  then have "nat sz * (1 + 3 * nat sz) \<le> 128 * (1 + 3 * 128)"
    by (intro mult_le_mono add_le_mono) simp_all
  then have "length (raw_data sz) \<le> 65535"
    by (simp add: length_raw_data)
  then show ?thesis
    by (simp add: length_stored_compress)
qed



lemma drop_to_suffix: "length t = n \<Longrightarrow> drop (length (p @ t) - n) (p @ t) = t"
  by simp

lemma png_layout_trailer:
  "drop (length (png_layout compress sz) - 12) (png_layout compress sz) = serialized tag_IEND []"
proof -
  let ?pre = "[0x89, 0x50, 0x4E, 0x47, 0x0D, 0x0A, 0x1A, 0x0A]
     @ serialized [0x49, 0x48, 0x44, 0x52] (be32 sz @ be32 sz @ [8, 2, 0, 0, 0])
     @ serialized [0x49, 0x44, 0x41, 0x54] (compress (raw_data sz))"
  let ?t = "serialized tag_IEND []"
  have split: "png_layout compress sz = ?pre @ ?t"
    by (simp add: png_layout_def tag_IEND_def)
  have len: "length ?t = 12"
    by (simp add: length_serialized tag_IEND_def)
  have "drop (length (?pre @ ?t) - 12) (?pre @ ?t) = ?t"
    using len by (rule drop_to_suffix)
  then show ?thesis
    by (simp only: split)
qed

section \<open>The claims\<close>

text \<open>
  C1 (as amended). For every size from 1 to \<open>2^31 - 1\<close> whose compressed scanlines are at
  most \<open>2^31 - 1\<close> bytes, and any \<open>decompress\<close> that inverts \<open>compress\<close> on the scanline
  buffer: the stream is produced, a conforming reader finds the IHDR chunk, one IDAT
  chunk holding the compressed buffer and the IEND chunk, that payload decompresses to
  \<open>sz\<close> rows of a filter byte 0 and \<open>sz\<close> triples (76, 175, 80), and decoding the stream
  gives the uniform \<open>sz\<close> by \<open>sz\<close> image of that colour.
\<close>

theorem png_roundtrip:
  assumes "0 < sz" "sz \<le> 2147483647"
    and "length (compress (raw_data sz)) \<le> 2147483647"
    and "decompress (compress (raw_data sz)) = Some (raw_data sz)"
  shows "\<exists>data ihdr.
           png_data compress sz = Inr data
           \<and> png_chunks (drop 8 data) =
               Some [(tag_IHDR, ihdr), (tag_IDAT, compress (raw_data sz)), (tag_IEND, [])]
           \<and> decompress (compress (raw_data sz)) =
               Some (concat (replicate (nat sz)
                       (0x00 # concat (replicate (nat sz) [76, 175, 80]))))
           \<and> decode_png decompress data =
               Some (nat sz, nat sz, replicate (nat sz) (replicate (nat sz) (76, 175, 80)))"
proof -
  have 1: "png_data compress sz = Inr (png_layout compress sz)"
    using assms(1-3) by (simp add: png_data_ok)
  have 2: "png_chunks (drop 8 (png_layout compress sz)) =
             Some [(tag_IHDR, be32 sz @ be32 sz @ [8, 2, 0, 0, 0]),
                   (tag_IDAT, compress (raw_data sz)), (tag_IEND, [])]"
    using assms(3) by (simp add: png_chunks_layout tag_IHDR_def tag_IDAT_def tag_IEND_def)
  have 3: "decompress (compress (raw_data sz)) =
             Some (concat (replicate (nat sz) (0x00 # concat (replicate (nat sz) [76, 175, 80]))))"
    using assms(4) by (simp add: raw_data_eq)
  have 4: "decode_png decompress (png_layout compress sz) =
             Some (nat sz, nat sz, replicate (nat sz) (replicate (nat sz) (76, 175, 80)))"
    using decode_png_layout [where compress = compress and decompress = decompress, OF assms]
    by simp
  from 1 2 3 4 show ?thesis by blast
qed

theorem png_roundtrip_witness:
  "(0::int) < 2 \<and> (2::int) \<le> 2147483647
   \<and> length (stored_compress (raw_data 2)) \<le> 2147483647
   \<and> stored_decompress (stored_compress (raw_data 2)) = Some (raw_data 2)
   \<and> (\<exists>data ihdr.
           png_data stored_compress 2 = Inr data
           \<and> png_chunks (drop 8 data) =
               Some [(tag_IHDR, ihdr), (tag_IDAT, stored_compress (raw_data 2)), (tag_IEND, [])]
           \<and> stored_decompress (stored_compress (raw_data 2)) =
               Some (concat (replicate (nat 2)
                       (0x00 # concat (replicate (nat 2) [76, 175, 80]))))
           \<and> decode_png stored_decompress data =
               Some (nat 2, nat 2, replicate (nat 2) (replicate (nat 2) (76, 175, 80))))"
proof -
  have h3: "length (stored_compress (raw_data 2)) \<le> 2147483647"
    by (rule length_stored_raw_png) simp_all
  have h4: "stored_decompress (stored_compress (raw_data 2)) = Some (raw_data 2)"
    by (rule stored_roundtrip) (simp add: length_raw_data)
  have h1: "(0::int) < 2" and h2: "(2::int) \<le> 2147483647"
    by simp_all
  from h1 h2 h3 h4
    png_roundtrip [where compress = stored_compress and decompress = stored_decompress,
      OF h1 h2 h3 h4]
  show ?thesis
    by (intro conjI)
qed

text \<open>At size \<open>2^32\<close> packing the width raises, and there is no file to decode.\<close>

theorem png_roundtrip_counterexample:
  "fst (create_icon stored_compress 4294967296 ''icon.png'' world0) = Inl StructError
   \<and> files (snd (create_icon stored_compress 4294967296 ''icon.png'' world0)) ''icon.png'' = None"
  by (simp add: create_icon_unpackable world0_def)

text \<open>
  C2 (as amended). For every size from 1 to \<open>2^32 - 1\<close> whose compressed scanlines fit a
  4-byte length, the stream is the signature followed by the IHDR, IDAT and IEND chunks,
  and in each chunk the length field is the byte length of the payload (13, the length of
  the compressed data, 0) and the CRC field is the CRC-32 of type and payload.
\<close>

theorem chunk_invariant:
  assumes "0 < sz" "sz \<le> 4294967295"
    and "length (compress (raw_data sz)) \<le> 4294967295"
  shows "\<exists>c1 c2 c3.
           ihdr_chunk sz = Inr c1 \<and> idat_chunk compress sz = Inr c2 \<and> iend_chunk = Inr c3
           \<and> png_data compress sz = Inr (header @ c1 @ c2 @ c3)
           \<and> chunk_type c1 = tag_IHDR
           \<and> chunk_length_field c1 = 13
           \<and> int (length (chunk_payload c1)) = 13
           \<and> chunk_crc_field c1 = crc32 (tag_IHDR @ chunk_payload c1)
           \<and> chunk_type c2 = tag_IDAT
           \<and> chunk_payload c2 = compress (raw_data sz)
           \<and> chunk_length_field c2 = int (length (compress (raw_data sz)))
           \<and> chunk_crc_field c2 = crc32 (tag_IDAT @ chunk_payload c2)
           \<and> chunk_type c3 = tag_IEND
           \<and> chunk_payload c3 = []
           \<and> chunk_length_field c3 = 0
           \<and> chunk_crc_field c3 = crc32 (tag_IEND @ chunk_payload c3)"
proof -
  let ?d = "be32 sz @ be32 sz @ [8, 2, 0, 0, 0]"
  let ?c1 = "serialized tag_IHDR ?d"
  let ?c2 = "serialized tag_IDAT (compress (raw_data sz))"
  let ?c3 = "serialized tag_IEND []"
  have t: "length tag_IHDR = 4" "length tag_IDAT = 4" "length tag_IEND = 4"
    by (simp_all add: tag_IHDR_def tag_IDAT_def tag_IEND_def)
  have d: "length ?d = 13" "length ?d \<le> 4294967295"
    by (simp_all add: length_be32)
  have e: "length ([] :: bytes) \<le> 4294967295"
    by simp
  have a1: "ihdr_chunk sz = Inr ?c1"
    using assms(1,2) by (simp add: ihdr_chunk_ok)
  have a2: "idat_chunk compress sz = Inr ?c2"
    using assms(3) by (rule idat_chunk_ok)
  have a3: "iend_chunk = Inr ?c3"
    by (rule iend_chunk_ok)
  have a4: "png_data compress sz = Inr (header @ ?c1 @ ?c2 @ ?c3)"
    by (simp add: png_data_def a1 a2 a3)
  have f1: "chunk_type ?c1 = tag_IHDR" "chunk_length_field ?c1 = 13"
    "int (length (chunk_payload ?c1)) = 13"
    "chunk_crc_field ?c1 = crc32 (tag_IHDR @ chunk_payload ?c1)"
    using d(1) by (simp_all add: chunk_fields_serialized [OF t(1) d(2)])
  have f2: "chunk_type ?c2 = tag_IDAT" "chunk_payload ?c2 = compress (raw_data sz)"
    "chunk_length_field ?c2 = int (length (compress (raw_data sz)))"
    "chunk_crc_field ?c2 = crc32 (tag_IDAT @ chunk_payload ?c2)"
    by (simp_all add: chunk_fields_serialized [OF t(2) assms(3)])
  have f3: "chunk_type ?c3 = tag_IEND" "chunk_payload ?c3 = []"
    "chunk_length_field ?c3 = 0"
    "chunk_crc_field ?c3 = crc32 (tag_IEND @ chunk_payload ?c3)"
    by (simp_all add: chunk_fields_serialized [OF t(3) e])
  from a1 a2 a3 a4 f1 f2 f3 show ?thesis
    by blast
qed

theorem chunk_invariant_witness:
  "(0::int) < 2 \<and> (2::int) \<le> 4294967295
   \<and> length (stored_compress (raw_data 2)) \<le> 4294967295
   \<and> (\<exists>c1 c2 c3.
           ihdr_chunk 2 = Inr c1 \<and> idat_chunk stored_compress 2 = Inr c2 \<and> iend_chunk = Inr c3
           \<and> png_data stored_compress 2 = Inr (header @ c1 @ c2 @ c3)
           \<and> chunk_type c1 = tag_IHDR
           \<and> chunk_length_field c1 = 13
           \<and> int (length (chunk_payload c1)) = 13
           \<and> chunk_crc_field c1 = crc32 (tag_IHDR @ chunk_payload c1)
           \<and> chunk_type c2 = tag_IDAT
           \<and> chunk_payload c2 = stored_compress (raw_data 2)
           \<and> chunk_length_field c2 = int (length (stored_compress (raw_data 2)))
           \<and> chunk_crc_field c2 = crc32 (tag_IDAT @ chunk_payload c2)
           \<and> chunk_type c3 = tag_IEND
           \<and> chunk_payload c3 = []
           \<and> chunk_length_field c3 = 0
           \<and> chunk_crc_field c3 = crc32 (tag_IEND @ chunk_payload c3))"
proof -
  have h1: "(0::int) < 2" and h2: "(2::int) \<le> 4294967295"
    by simp_all
  have h3: "length (stored_compress (raw_data 2)) \<le> 4294967295"
    by (rule length_stored_raw) simp_all
  from h1 h2 h3 chunk_invariant [where compress = stored_compress, OF h1 h2 h3]
  show ?thesis
    by (intro conjI)
qed

text \<open>At size \<open>2^32\<close> no IHDR chunk is built.\<close>

theorem chunk_invariant_counterexample:
  "ihdr_chunk 4294967296 = Inl StructError"
  by (simp add: ihdr_chunk_fail)

text \<open>
  C3 (as amended). For every size from 1 to \<open>2^32 - 1\<close> whose compressed scanlines fit a
  4-byte length, and a file name that can be opened and written in full: the bytes written
  are the 8 signature bytes, then the serialized IHDR chunk, one serialized IDAT chunk and
  the serialized IEND chunk; the file begins with the signature, and reading the chunks
  back gives exactly these three.
\<close>

theorem output_layout:
  assumes "0 < sz" "sz \<le> 4294967295"
    and "length (compress (raw_data sz)) \<le> 4294967295"
    and "writable w filename"
    and "has_room w filename (length (png_layout compress sz))"
  shows "\<exists>data.
           data = [0x89, 0x50, 0x4E, 0x47, 0x0D, 0x0A, 0x1A, 0x0A]
                  @ serialized tag_IHDR (be32 sz @ be32 sz @ [8, 2, 0, 0, 0])
                  @ serialized tag_IDAT (compress (raw_data sz))
                  @ serialized tag_IEND []
           \<and> png_data compress sz = Inr data
           \<and> fst (create_icon compress sz filename w) = Inr ()
           \<and> files (snd (create_icon compress sz filename w)) filename = Some data
           \<and> take 8 data = [0x89, 0x50, 0x4E, 0x47, 0x0D, 0x0A, 0x1A, 0x0A]
           \<and> parse_chunks (drop 8 data) =
               Some [(tag_IHDR, be32 sz @ be32 sz @ [8, 2, 0, 0, 0]),
                     (tag_IDAT, compress (raw_data sz)), (tag_IEND, [])]"
proof -
  have 0: "png_layout compress sz =
             [0x89, 0x50, 0x4E, 0x47, 0x0D, 0x0A, 0x1A, 0x0A]
             @ serialized tag_IHDR (be32 sz @ be32 sz @ [8, 2, 0, 0, 0])
             @ serialized tag_IDAT (compress (raw_data sz))
             @ serialized tag_IEND []"
    by (simp add: png_layout_def tag_IHDR_def tag_IDAT_def tag_IEND_def)
  have 1: "png_data compress sz = Inr (png_layout compress sz)"
    using assms(1-3) by (simp add: png_data_ok)
  have 2: "create_icon compress sz filename w =
             (Inr (), w\<lparr>files := (files w)(filename \<mapsto> png_layout compress sz),
                          stdout := stdout w @ [''Created '' @ filename]\<rparr>)"
    using assms by (simp add: create_icon_ok)
  have 3: "fst (create_icon compress sz filename w) = Inr ()"
    "files (snd (create_icon compress sz filename w)) filename = Some (png_layout compress sz)"
    by (simp_all add: 2)
  have 4: "take 8 (png_layout compress sz) = [0x89, 0x50, 0x4E, 0x47, 0x0D, 0x0A, 0x1A, 0x0A]"
    by (simp add: png_layout_def)
  have 5: "parse_chunks (drop 8 (png_layout compress sz)) =
             Some [(tag_IHDR, be32 sz @ be32 sz @ [8, 2, 0, 0, 0]),
                   (tag_IDAT, compress (raw_data sz)), (tag_IEND, [])]"
    using assms(3) by (simp add: parse_png_layout tag_IHDR_def tag_IDAT_def tag_IEND_def)
  from 0 1 3 4 5 show ?thesis
    by blast
qed

theorem output_layout_witness:
  "(0::int) < 2 \<and> (2::int) \<le> 4294967295
   \<and> length (stored_compress (raw_data 2)) \<le> 4294967295
   \<and> writable world0 ''icon2.png''
   \<and> has_room world0 ''icon2.png'' (length (png_layout stored_compress 2))
   \<and> (\<exists>data.
           data = [0x89, 0x50, 0x4E, 0x47, 0x0D, 0x0A, 0x1A, 0x0A]
                  @ serialized tag_IHDR (be32 2 @ be32 2 @ [8, 2, 0, 0, 0])
                  @ serialized tag_IDAT (stored_compress (raw_data 2))
                  @ serialized tag_IEND []
           \<and> png_data stored_compress 2 = Inr data
           \<and> fst (create_icon stored_compress 2 ''icon2.png'' world0) = Inr ()
           \<and> files (snd (create_icon stored_compress 2 ''icon2.png'' world0)) ''icon2.png'' = Some data
           \<and> take 8 data = [0x89, 0x50, 0x4E, 0x47, 0x0D, 0x0A, 0x1A, 0x0A]
           \<and> parse_chunks (drop 8 data) =
               Some [(tag_IHDR, be32 2 @ be32 2 @ [8, 2, 0, 0, 0]),
                     (tag_IDAT, stored_compress (raw_data 2)), (tag_IEND, [])])"
proof -
  have h1: "(0::int) < 2" and h2: "(2::int) \<le> 4294967295"
    by simp_all
  have h3: "length (stored_compress (raw_data 2)) \<le> 4294967295"
    by (rule length_stored_raw) simp_all
  have h4: "writable world0 ''icon2.png''"
    by (simp add: world0_def)
  have h5: "has_room world0 ''icon2.png'' (length (png_layout stored_compress 2))"
    by (simp add: has_room_def world0_def)
  from h1 h2 h3 h4 h5
    output_layout [where compress = stored_compress and w = world0 and filename = "''icon2.png''",
      OF h1 h2 h3 h4 h5]
  show ?thesis
    by (intro conjI)
qed

text \<open>At size \<open>2^32\<close> no byte stream is assembled.\<close>

theorem output_layout_counterexample:
  "png_data stored_compress 4294967296 = Inl StructError"
  by (simp add: png_data_fail)

text \<open>
  C4 (as amended). For every size from 1 to \<open>2^32 - 1\<close>, the IHDR payload is 13 bytes:
  the size twice as a 4-byte big-endian unsigned number, then 8, 2, 0, 0, 0; and the
  length field of the IHDR chunk is 13.
\<close>

theorem ihdr_contents:
  assumes "0 < sz" "sz \<le> 4294967295"
  shows "\<exists>d c.
           ihdr_data sz = Inr d
           \<and> length d = 13
           \<and> unpack_I (take 4 d) = sz
           \<and> unpack_I (take 4 (drop 4 d)) = sz
           \<and> drop 8 d = [8, 2, 0, 0, 0]
           \<and> ihdr_chunk sz = Inr c
           \<and> take 4 c = [0, 0, 0, 13]
           \<and> chunk_length_field c = 13
           \<and> chunk_payload c = d"
proof -
  let ?d = "be32 sz @ be32 sz @ [8, 2, 0, 0, 0]"
  let ?c = "serialized tag_IHDR ?d"
  have t: "length tag_IHDR = 4"
    by (simp add: tag_IHDR_def)
  have l: "length ?d \<le> 4294967295"
    by (simp add: length_be32)
  have 1: "ihdr_data sz = Inr ?d"
    using assms by (simp add: ihdr_data_ok)
  have 2: "length ?d = 13"
    by (simp add: length_be32)
  have 3: "unpack_I (take 4 ?d) = sz" "unpack_I (take 4 (drop 4 ?d)) = sz"
    using assms by (simp_all add: length_be32 unpack_be32)
  have 4: "drop 8 ?d = [8, 2, 0, 0, 0]"
    by (simp add: length_be32)
  have 5: "ihdr_chunk sz = Inr ?c"
    using assms by (simp add: ihdr_chunk_ok)
  have "be32 13 = [0, 0, 0, 13]"
    by (simp add: be32_def)
  then have 6: "take 4 ?c = [0, 0, 0, 13]"
    by (simp add: serialized_def length_be32)
  have 7: "chunk_length_field ?c = 13" "chunk_payload ?c = ?d"
    using 2 by (simp_all add: chunk_fields_serialized [OF t l])
  from 1 2 3 4 5 6 7 show ?thesis
    by blast
qed

theorem ihdr_contents_witness:
  "(0::int) < 16 \<and> (16::int) \<le> 4294967295
   \<and> (\<exists>d c.
           ihdr_data 16 = Inr d
           \<and> length d = 13
           \<and> unpack_I (take 4 d) = 16
           \<and> unpack_I (take 4 (drop 4 d)) = 16
           \<and> drop 8 d = [8, 2, 0, 0, 0]
           \<and> ihdr_chunk 16 = Inr c
           \<and> take 4 c = [0, 0, 0, 13]
           \<and> chunk_length_field c = 13
           \<and> chunk_payload c = d)"
proof -
  have h1: "(0::int) < 16" and h2: "(16::int) \<le> 4294967295"
    by simp_all
  from h1 h2 ihdr_contents [OF h1 h2] show ?thesis
    by (intro conjI)
qed

text \<open>At size \<open>2^32\<close> the width does not fit the code \<^verbatim>\<open>I\<close>.\<close>

theorem ihdr_contents_counterexample:
  "ihdr_data 4294967296 = Inl StructError"
  by (simp add: ihdr_data_fail)

text \<open>
  C5. For every positive size \<open>sz\<close>, the buffer built by the scanline loops is \<open>sz\<close>
  rows, each the filter byte \<open>0x00\<close> followed by \<open>sz\<close> copies of the triple
  \<open>0x4C 0xAF 0x50\<close>, and its length is \<open>sz * (1 + 3 * sz)\<close>.
\<close>

theorem raw_data_shape:
  assumes "0 < sz"
  shows "raw_data sz =
           concat (replicate (nat sz)
             ([0x00] @ concat (replicate (nat sz) [0x4C, 0xAF, 0x50])))
         \<and> int (length (raw_data sz)) = sz * (1 + 3 * sz)"
proof -
  have "int (length (raw_data sz)) = int (nat sz) * (1 + 3 * int (nat sz))"
    by (simp add: length_raw_data algebra_simps)
  also have "\<dots> = sz * (1 + 3 * sz)"
    using assms by simp
  finally show ?thesis by (simp add: raw_data_eq)
qed

theorem raw_data_shape_witness:
  "(0::int) < 2
   \<and> raw_data 2 = [0x00, 0x4C, 0xAF, 0x50, 0x4C, 0xAF, 0x50, 0x00, 0x4C, 0xAF, 0x50, 0x4C, 0xAF, 0x50]
   \<and> int (length (raw_data 2)) = 14"
  using raw_data_shape [of 2] by (simp add: numeral_2_eq_2)

text \<open>
  C6 (as amended). For every size from 1 to \<open>2^32 - 1\<close> whose compressed scanlines fit a
  4-byte length, the last 12 bytes of the stream are the IEND chunk: length field 0, type
  IEND, no payload, and the CRC-32 of the four bytes of the type; it is the last chunk
  read back.
\<close>

theorem iend_trailer:
  assumes "0 < sz" "sz \<le> 4294967295"
    and "length (compress (raw_data sz)) \<le> 4294967295"
  shows "\<exists>data cs trailer.
           png_data compress sz = Inr data
           \<and> trailer = drop (length data - 12) data
           \<and> iend_chunk = Inr trailer
           \<and> trailer = [0, 0, 0, 0] @ tag_IEND @ be32 (crc32 tag_IEND)
           \<and> trailer = [0x00, 0x00, 0x00, 0x00, 0x49, 0x45, 0x4E, 0x44, 0xAE, 0x42, 0x60, 0x82]
           \<and> chunk_type trailer = tag_IEND
           \<and> chunk_payload trailer = []
           \<and> chunk_length_field trailer = 0
           \<and> chunk_crc_field trailer = crc32 tag_IEND
           \<and> parse_chunks (drop 8 data) = Some cs
           \<and> last cs = (tag_IEND, [])"
proof -
  let ?t = "serialized tag_IEND []"
  have t: "length tag_IEND = 4"
    by (simp add: tag_IEND_def)
  have e: "length ([] :: bytes) \<le> 4294967295"
    by simp
  have 1: "png_data compress sz = Inr (png_layout compress sz)"
    using assms by (simp add: png_data_ok)
  have 2: "?t = drop (length (png_layout compress sz) - 12) (png_layout compress sz)"
    by (simp add: png_layout_trailer)
  have 3: "iend_chunk = Inr ?t"
    by (rule iend_chunk_ok)
  have 4: "?t = [0, 0, 0, 0] @ tag_IEND @ be32 (crc32 tag_IEND)"
    by (simp add: serialized_def be32_def)
  have 8: "?t = [0x00, 0x00, 0x00, 0x00, 0x49, 0x45, 0x4E, 0x44, 0xAE, 0x42, 0x60, 0x82]"
    using 3 by (simp add: iend_chunk_bytes)
  have 5: "chunk_type ?t = tag_IEND" "chunk_payload ?t = []" "chunk_length_field ?t = 0"
    "chunk_crc_field ?t = crc32 tag_IEND"
    by (simp_all add: chunk_fields_serialized [OF t e])
  have 6: "parse_chunks (drop 8 (png_layout compress sz)) =
             Some [(tag_IHDR, be32 sz @ be32 sz @ [8, 2, 0, 0, 0]),
                   (tag_IDAT, compress (raw_data sz)), (tag_IEND, [])]"
    using assms(3) by (simp add: parse_png_layout tag_IHDR_def tag_IDAT_def tag_IEND_def)
  have 7: "last [(tag_IHDR, be32 sz @ be32 sz @ [8, 2, 0, 0, 0]),
                 (tag_IDAT, compress (raw_data sz)), (tag_IEND, [])] = (tag_IEND, [])"
    by simp
  from 1 2 3 4 8 5 6 7 show ?thesis
    by blast
qed

theorem iend_trailer_witness:
  "(0::int) < 2 \<and> (2::int) \<le> 4294967295
   \<and> length (stored_compress (raw_data 2)) \<le> 4294967295
   \<and> (\<exists>data cs trailer.
           png_data stored_compress 2 = Inr data
           \<and> trailer = drop (length data - 12) data
           \<and> iend_chunk = Inr trailer
           \<and> trailer = [0, 0, 0, 0] @ tag_IEND @ be32 (crc32 tag_IEND)
           \<and> trailer = [0x00, 0x00, 0x00, 0x00, 0x49, 0x45, 0x4E, 0x44, 0xAE, 0x42, 0x60, 0x82]
           \<and> chunk_type trailer = tag_IEND
           \<and> chunk_payload trailer = []
           \<and> chunk_length_field trailer = 0
           \<and> chunk_crc_field trailer = crc32 tag_IEND
           \<and> parse_chunks (drop 8 data) = Some cs
           \<and> last cs = (tag_IEND, []))"
proof -
  have h1: "(0::int) < 2" and h2: "(2::int) \<le> 4294967295"
    by simp_all
  have h3: "length (stored_compress (raw_data 2)) \<le> 4294967295"
    by (rule length_stored_raw) simp_all
  from h1 h2 h3 iend_trailer [where compress = stored_compress, OF h1 h2 h3]
  show ?thesis
    by (intro conjI)
qed

text \<open>At size \<open>2^32\<close> the call ends with the packing error and the world is as before.\<close>

theorem iend_trailer_counterexample:
  "create_icon stored_compress 4294967296 ''icon.png'' world0 = (Inl StructError, world0)"
  by (simp add: create_icon_unpackable)

text \<open>
  C7 (as amended). For every size below 0, \<open>create_icon\<close> fails (with the error of
  \<^verbatim>\<open>struct.pack\<close>; the script has no validation of its own) and leaves the files as
  they were.
\<close>

theorem negative_size_fails:
  assumes "sz < 0"
  shows "fst (create_icon compress sz filename w) = Inl StructError
         \<and> files (snd (create_icon compress sz filename w)) = files w"
  using assms by (simp add: create_icon_unpackable)

theorem negative_size_fails_witness:
  "(-1::int) < 0
   \<and> fst (create_icon stored_compress (-1) ''icon.png'' world0) = Inl StructError
   \<and> files (snd (create_icon stored_compress (-1) ''icon.png'' world0)) = files world0"
proof -
  have h: "(-1::int) < 0" by simp
  from h negative_size_fails [where compress = stored_compress, OF h] show ?thesis
    by (intro conjI) simp_all
qed

text \<open>Size 0 is accepted: the call succeeds and writes a file.\<close>

theorem size_zero_counterexample:
  "fst (create_icon stored_compress 0 ''icon0.png'' world0) = Inr ()
   \<and> files (snd (create_icon stored_compress 0 ''icon0.png'' world0)) ''icon0.png''
       = Some (png_layout stored_compress 0)"
proof -
  have "length (stored_compress (raw_data 0)) \<le> 4294967295"
    by (rule length_stored_raw) simp_all
  then have "create_icon stored_compress 0 ''icon0.png'' world0 =
          (Inr (), world0\<lparr>files := (files world0)(''icon0.png'' \<mapsto> png_layout stored_compress 0),
                          stdout := stdout world0 @ [''Created '' @ ''icon0.png'']\<rparr>)"
    by (intro create_icon_ok) (simp_all add: world0_def has_room_def)
  then show ?thesis
    by simp
qed

text \<open>
  C8 (as amended). The driver calls the encoder with (16, icon16.png), (32, icon32.png),
  (48, icon48.png), (128, icon128.png) in this order: when all four files can be opened
  and written in full, the four files are written and the four lines printed in order.
  When a call fails with a write error, the driver ends with that error: the files before
  it are written and their lines printed; the failing file is left alone when it could not
  be opened, and holds the part that was taken when the write broke off; no later file is
  touched.
\<close>

theorem driver_sequence:
  assumes "length (compress (raw_data 16)) \<le> 4294967295"
    and "length (compress (raw_data 32)) \<le> 4294967295"
    and "length (compress (raw_data 48)) \<le> 4294967295"
    and "length (compress (raw_data 128)) \<le> 4294967295"
  shows "(writable w ''icon16.png'' \<and> has_room w ''icon16.png'' (length (png_layout compress 16))
            \<and> writable w ''icon32.png'' \<and> has_room w ''icon32.png'' (length (png_layout compress 32))
            \<and> writable w ''icon48.png'' \<and> has_room w ''icon48.png'' (length (png_layout compress 48))
            \<and> writable w ''icon128.png'' \<and> has_room w ''icon128.png'' (length (png_layout compress 128)) \<longrightarrow>
          driver compress w =
            (Inr (), w\<lparr>files := (files w)(''icon16.png'' \<mapsto> png_layout compress 16,
                              ''icon32.png'' \<mapsto> png_layout compress 32,
                              ''icon48.png'' \<mapsto> png_layout compress 48,
                              ''icon128.png'' \<mapsto> png_layout compress 128),
               stdout := stdout w @ [''Created icon16.png'',
                    ''Created icon32.png'',
                    ''Created icon48.png'',
                    ''Created icon128.png'']\<rparr>))
       \<and> (\<not> writable w ''icon16.png'' \<longrightarrow>
          driver compress w =
            (Inl OSError, w))
       \<and> (writable w ''icon16.png'' \<and> room w ''icon16.png'' = Some r \<and> r < length (png_layout compress 16) \<longrightarrow>
          driver compress w =
            (Inl OSError, w\<lparr>files := (files w)(''icon16.png'' \<mapsto> take r (png_layout compress 16))\<rparr>))
       \<and> (writable w ''icon16.png'' \<and> has_room w ''icon16.png'' (length (png_layout compress 16))
            \<and> \<not> writable w ''icon32.png'' \<longrightarrow>
          driver compress w =
            (Inl OSError, w\<lparr>files := (files w)(''icon16.png'' \<mapsto> png_layout compress 16),
               stdout := stdout w @ [''Created icon16.png'']\<rparr>))
       \<and> (writable w ''icon16.png'' \<and> has_room w ''icon16.png'' (length (png_layout compress 16))
            \<and> writable w ''icon32.png'' \<and> room w ''icon32.png'' = Some r \<and> r < length (png_layout compress 32) \<longrightarrow>
          driver compress w =
            (Inl OSError, w\<lparr>files := (files w)(''icon16.png'' \<mapsto> png_layout compress 16,
                              ''icon32.png'' \<mapsto> take r (png_layout compress 32)),
               stdout := stdout w @ [''Created icon16.png'']\<rparr>))
       \<and> (writable w ''icon16.png'' \<and> has_room w ''icon16.png'' (length (png_layout compress 16))
            \<and> writable w ''icon32.png'' \<and> has_room w ''icon32.png'' (length (png_layout compress 32))
            \<and> \<not> writable w ''icon48.png'' \<longrightarrow>
          driver compress w =
            (Inl OSError, w\<lparr>files := (files w)(''icon16.png'' \<mapsto> png_layout compress 16,
                              ''icon32.png'' \<mapsto> png_layout compress 32),
               stdout := stdout w @ [''Created icon16.png'',
                    ''Created icon32.png'']\<rparr>))
       \<and> (writable w ''icon16.png'' \<and> has_room w ''icon16.png'' (length (png_layout compress 16))
            \<and> writable w ''icon32.png'' \<and> has_room w ''icon32.png'' (length (png_layout compress 32))
            \<and> writable w ''icon48.png'' \<and> room w ''icon48.png'' = Some r \<and> r < length (png_layout compress 48) \<longrightarrow>
          driver compress w =
            (Inl OSError, w\<lparr>files := (files w)(''icon16.png'' \<mapsto> png_layout compress 16,
                              ''icon32.png'' \<mapsto> png_layout compress 32,
                              ''icon48.png'' \<mapsto> take r (png_layout compress 48)),
               stdout := stdout w @ [''Created icon16.png'',
                    ''Created icon32.png'']\<rparr>))
       \<and> (writable w ''icon16.png'' \<and> has_room w ''icon16.png'' (length (png_layout compress 16))
            \<and> writable w ''icon32.png'' \<and> has_room w ''icon32.png'' (length (png_layout compress 32))
            \<and> writable w ''icon48.png'' \<and> has_room w ''icon48.png'' (length (png_layout compress 48))
            \<and> \<not> writable w ''icon128.png'' \<longrightarrow>
          driver compress w =
            (Inl OSError, w\<lparr>files := (files w)(''icon16.png'' \<mapsto> png_layout compress 16,
                              ''icon32.png'' \<mapsto> png_layout compress 32,
                              ''icon48.png'' \<mapsto> png_layout compress 48),
               stdout := stdout w @ [''Created icon16.png'',
                    ''Created icon32.png'',
                    ''Created icon48.png'']\<rparr>))
       \<and> (writable w ''icon16.png'' \<and> has_room w ''icon16.png'' (length (png_layout compress 16))
            \<and> writable w ''icon32.png'' \<and> has_room w ''icon32.png'' (length (png_layout compress 32))
            \<and> writable w ''icon48.png'' \<and> has_room w ''icon48.png'' (length (png_layout compress 48))
            \<and> writable w ''icon128.png'' \<and> room w ''icon128.png'' = Some r \<and> r < length (png_layout compress 128) \<longrightarrow>
          driver compress w =
            (Inl OSError, w\<lparr>files := (files w)(''icon16.png'' \<mapsto> png_layout compress 16,
                              ''icon32.png'' \<mapsto> png_layout compress 32,
                              ''icon48.png'' \<mapsto> png_layout compress 48,
                              ''icon128.png'' \<mapsto> take r (png_layout compress 128)),
               stdout := stdout w @ [''Created icon16.png'',
                    ''Created icon32.png'',
                    ''Created icon48.png'']\<rparr>))"
proof (intro conjI impI)
  assume "writable w ''icon16.png'' \<and> has_room w ''icon16.png'' (length (png_layout compress 16))
            \<and> writable w ''icon32.png'' \<and> has_room w ''icon32.png'' (length (png_layout compress 32))
            \<and> writable w ''icon48.png'' \<and> has_room w ''icon48.png'' (length (png_layout compress 48))
            \<and> writable w ''icon128.png'' \<and> has_room w ''icon128.png'' (length (png_layout compress 128))"
  then show "driver compress w =
            (Inr (), w\<lparr>files := (files w)(''icon16.png'' \<mapsto> png_layout compress 16,
                              ''icon32.png'' \<mapsto> png_layout compress 32,
                              ''icon48.png'' \<mapsto> png_layout compress 48,
                              ''icon128.png'' \<mapsto> png_layout compress 128),
               stdout := stdout w @ [''Created icon16.png'',
                    ''Created icon32.png'',
                    ''Created icon48.png'',
                    ''Created icon128.png'']\<rparr>)"
    using assms
    by (simp add: driver_def create_icon_ok create_icon_locked create_icon_short has_room_def)
next
  assume "\<not> writable w ''icon16.png''"
  then show "driver compress w =
            (Inl OSError, w)"
    using assms
    by (simp add: driver_def create_icon_ok create_icon_locked create_icon_short has_room_def)
next
  assume "writable w ''icon16.png'' \<and> room w ''icon16.png'' = Some r \<and> r < length (png_layout compress 16)"
  then show "driver compress w =
            (Inl OSError, w\<lparr>files := (files w)(''icon16.png'' \<mapsto> take r (png_layout compress 16))\<rparr>)"
    using assms
    by (simp add: driver_def create_icon_ok create_icon_locked create_icon_short has_room_def)
next
  assume "writable w ''icon16.png'' \<and> has_room w ''icon16.png'' (length (png_layout compress 16))
            \<and> \<not> writable w ''icon32.png''"
  then show "driver compress w =
            (Inl OSError, w\<lparr>files := (files w)(''icon16.png'' \<mapsto> png_layout compress 16),
               stdout := stdout w @ [''Created icon16.png'']\<rparr>)"
    using assms
    by (simp add: driver_def create_icon_ok create_icon_locked create_icon_short has_room_def)
next
  assume "writable w ''icon16.png'' \<and> has_room w ''icon16.png'' (length (png_layout compress 16))
            \<and> writable w ''icon32.png'' \<and> room w ''icon32.png'' = Some r \<and> r < length (png_layout compress 32)"
  then show "driver compress w =
            (Inl OSError, w\<lparr>files := (files w)(''icon16.png'' \<mapsto> png_layout compress 16,
                              ''icon32.png'' \<mapsto> take r (png_layout compress 32)),
               stdout := stdout w @ [''Created icon16.png'']\<rparr>)"
    using assms
    by (simp add: driver_def create_icon_ok create_icon_locked create_icon_short has_room_def)
next
  assume "writable w ''icon16.png'' \<and> has_room w ''icon16.png'' (length (png_layout compress 16))
            \<and> writable w ''icon32.png'' \<and> has_room w ''icon32.png'' (length (png_layout compress 32))
            \<and> \<not> writable w ''icon48.png''"
  then show "driver compress w =
            (Inl OSError, w\<lparr>files := (files w)(''icon16.png'' \<mapsto> png_layout compress 16,
                              ''icon32.png'' \<mapsto> png_layout compress 32),
               stdout := stdout w @ [''Created icon16.png'',
                    ''Created icon32.png'']\<rparr>)"
    using assms
    by (simp add: driver_def create_icon_ok create_icon_locked create_icon_short has_room_def)
next
  assume "writable w ''icon16.png'' \<and> has_room w ''icon16.png'' (length (png_layout compress 16))
            \<and> writable w ''icon32.png'' \<and> has_room w ''icon32.png'' (length (png_layout compress 32))
            \<and> writable w ''icon48.png'' \<and> room w ''icon48.png'' = Some r \<and> r < length (png_layout compress 48)"
  then show "driver compress w =
            (Inl OSError, w\<lparr>files := (files w)(''icon16.png'' \<mapsto> png_layout compress 16,
                              ''icon32.png'' \<mapsto> png_layout compress 32,
                              ''icon48.png'' \<mapsto> take r (png_layout compress 48)),
               stdout := stdout w @ [''Created icon16.png'',
                    ''Created icon32.png'']\<rparr>)"
    using assms
    by (simp add: driver_def create_icon_ok create_icon_locked create_icon_short has_room_def)
next
  assume "writable w ''icon16.png'' \<and> has_room w ''icon16.png'' (length (png_layout compress 16))
            \<and> writable w ''icon32.png'' \<and> has_room w ''icon32.png'' (length (png_layout compress 32))
            \<and> writable w ''icon48.png'' \<and> has_room w ''icon48.png'' (length (png_layout compress 48))
            \<and> \<not> writable w ''icon128.png''"
  then show "driver compress w =
            (Inl OSError, w\<lparr>files := (files w)(''icon16.png'' \<mapsto> png_layout compress 16,
                              ''icon32.png'' \<mapsto> png_layout compress 32,
                              ''icon48.png'' \<mapsto> png_layout compress 48),
               stdout := stdout w @ [''Created icon16.png'',
                    ''Created icon32.png'',
                    ''Created icon48.png'']\<rparr>)"
    using assms
    by (simp add: driver_def create_icon_ok create_icon_locked create_icon_short has_room_def)
next
  assume "writable w ''icon16.png'' \<and> has_room w ''icon16.png'' (length (png_layout compress 16))
            \<and> writable w ''icon32.png'' \<and> has_room w ''icon32.png'' (length (png_layout compress 32))
            \<and> writable w ''icon48.png'' \<and> has_room w ''icon48.png'' (length (png_layout compress 48))
            \<and> writable w ''icon128.png'' \<and> room w ''icon128.png'' = Some r \<and> r < length (png_layout compress 128)"
  then show "driver compress w =
            (Inl OSError, w\<lparr>files := (files w)(''icon16.png'' \<mapsto> png_layout compress 16,
                              ''icon32.png'' \<mapsto> png_layout compress 32,
                              ''icon48.png'' \<mapsto> png_layout compress 48,
                              ''icon128.png'' \<mapsto> take r (png_layout compress 128)),
               stdout := stdout w @ [''Created icon16.png'',
                    ''Created icon32.png'',
                    ''Created icon48.png'']\<rparr>)"
    using assms
    by (simp add: driver_def create_icon_ok create_icon_locked create_icon_short has_room_def)
qed

theorem driver_sequence_witness:
  "length (stored_compress (raw_data 16)) \<le> 4294967295
   \<and> length (stored_compress (raw_data 32)) \<le> 4294967295
   \<and> length (stored_compress (raw_data 48)) \<le> 4294967295
   \<and> length (stored_compress (raw_data 128)) \<le> 4294967295
   \<and> driver stored_compress world0 =
            (Inr (), world0\<lparr>files := (files world0)(''icon16.png'' \<mapsto> png_layout stored_compress 16,
                              ''icon32.png'' \<mapsto> png_layout stored_compress 32,
                              ''icon48.png'' \<mapsto> png_layout stored_compress 48,
                              ''icon128.png'' \<mapsto> png_layout stored_compress 128),
               stdout := stdout world0 @ [''Created icon16.png'',
                    ''Created icon32.png'',
                    ''Created icon48.png'',
                    ''Created icon128.png'']\<rparr>)
   \<and> driver stored_compress (world_locked ''icon16.png'') =
            (Inl OSError, world_locked ''icon16.png'')
   \<and> driver stored_compress (world_full ''icon16.png'') =
            (Inl OSError, (world_full ''icon16.png'')\<lparr>files := (files (world_full ''icon16.png''))(''icon16.png'' \<mapsto> take 8 (png_layout stored_compress 16))\<rparr>)
   \<and> driver stored_compress (world_locked ''icon32.png'') =
            (Inl OSError, (world_locked ''icon32.png'')\<lparr>files := (files (world_locked ''icon32.png''))(''icon16.png'' \<mapsto> png_layout stored_compress 16),
               stdout := stdout (world_locked ''icon32.png'') @ [''Created icon16.png'']\<rparr>)
   \<and> driver stored_compress (world_full ''icon32.png'') =
            (Inl OSError, (world_full ''icon32.png'')\<lparr>files := (files (world_full ''icon32.png''))(''icon16.png'' \<mapsto> png_layout stored_compress 16,
                              ''icon32.png'' \<mapsto> take 8 (png_layout stored_compress 32)),
               stdout := stdout (world_full ''icon32.png'') @ [''Created icon16.png'']\<rparr>)
   \<and> driver stored_compress (world_locked ''icon48.png'') =
            (Inl OSError, (world_locked ''icon48.png'')\<lparr>files := (files (world_locked ''icon48.png''))(''icon16.png'' \<mapsto> png_layout stored_compress 16,
                              ''icon32.png'' \<mapsto> png_layout stored_compress 32),
               stdout := stdout (world_locked ''icon48.png'') @ [''Created icon16.png'',
                    ''Created icon32.png'']\<rparr>)
   \<and> driver stored_compress (world_full ''icon48.png'') =
            (Inl OSError, (world_full ''icon48.png'')\<lparr>files := (files (world_full ''icon48.png''))(''icon16.png'' \<mapsto> png_layout stored_compress 16,
                              ''icon32.png'' \<mapsto> png_layout stored_compress 32,
                              ''icon48.png'' \<mapsto> take 8 (png_layout stored_compress 48)),
               stdout := stdout (world_full ''icon48.png'') @ [''Created icon16.png'',
                    ''Created icon32.png'']\<rparr>)
   \<and> driver stored_compress (world_locked ''icon128.png'') =
            (Inl OSError, (world_locked ''icon128.png'')\<lparr>files := (files (world_locked ''icon128.png''))(''icon16.png'' \<mapsto> png_layout stored_compress 16,
                              ''icon32.png'' \<mapsto> png_layout stored_compress 32,
                              ''icon48.png'' \<mapsto> png_layout stored_compress 48),
               stdout := stdout (world_locked ''icon128.png'') @ [''Created icon16.png'',
                    ''Created icon32.png'',
                    ''Created icon48.png'']\<rparr>)
   \<and> driver stored_compress (world_full ''icon128.png'') =
            (Inl OSError, (world_full ''icon128.png'')\<lparr>files := (files (world_full ''icon128.png''))(''icon16.png'' \<mapsto> png_layout stored_compress 16,
                              ''icon32.png'' \<mapsto> png_layout stored_compress 32,
                              ''icon48.png'' \<mapsto> png_layout stored_compress 48,
                              ''icon128.png'' \<mapsto> take 8 (png_layout stored_compress 128)),
               stdout := stdout (world_full ''icon128.png'') @ [''Created icon16.png'',
                    ''Created icon32.png'',
                    ''Created icon48.png'']\<rparr>)"
proof -
  have l16: "length (stored_compress (raw_data 16)) \<le> 4294967295"
    by (rule length_stored_raw) simp_all
  have l32: "length (stored_compress (raw_data 32)) \<le> 4294967295"
    by (rule length_stored_raw) simp_all
  have l48: "length (stored_compress (raw_data 48)) \<le> 4294967295"
    by (rule length_stored_raw) simp_all
  have l128: "length (stored_compress (raw_data 128)) \<le> 4294967295"
    by (rule length_stored_raw) simp_all
  note D = driver_sequence [where compress = stored_compress and r = 8, OF l16 l32 l48 l128]
  have w0: "writable world0 f" "has_room world0 f n" for f n
    by (simp_all add: world0_def has_room_def)
  have wl: "writable (world_locked g) f \<longleftrightarrow> f \<noteq> g" "has_room (world_locked g) f n" for f g n
    by (simp_all add: world_locked_def has_room_def)
  have wf: "writable (world_full g) f" "room (world_full g) g = Some 8"
    "f \<noteq> g \<Longrightarrow> has_room (world_full g) f n" for f g n
    by (simp_all add: world_full_def has_room_def)
  have long: "8 < length (png_layout stored_compress n)" for n
    by (simp add: length_png_layout)
  have a: "driver stored_compress world0 =
            (Inr (), world0\<lparr>files := (files world0)(''icon16.png'' \<mapsto> png_layout stored_compress 16,
                              ''icon32.png'' \<mapsto> png_layout stored_compress 32,
                              ''icon48.png'' \<mapsto> png_layout stored_compress 48,
                              ''icon128.png'' \<mapsto> png_layout stored_compress 128),
               stdout := stdout world0 @ [''Created icon16.png'',
                    ''Created icon32.png'',
                    ''Created icon48.png'',
                    ''Created icon128.png'']\<rparr>)"
    by (rule D [where w = world0, THEN conjunct1, THEN mp]) (simp add: w0)
  have b: "driver stored_compress (world_locked ''icon16.png'') =
            (Inl OSError, world_locked ''icon16.png'')"
    by (rule D [where w = "world_locked ''icon16.png''", THEN conjunct2, THEN conjunct1, THEN mp]) (simp add: wl)
  have c: "driver stored_compress (world_full ''icon16.png'') =
            (Inl OSError, (world_full ''icon16.png'')\<lparr>files := (files (world_full ''icon16.png''))(''icon16.png'' \<mapsto> take 8 (png_layout stored_compress 16))\<rparr>)"
    by (rule D [where w = "world_full ''icon16.png''", THEN conjunct2, THEN conjunct2, THEN conjunct1, THEN mp]) (simp add: wf long)
  have d: "driver stored_compress (world_locked ''icon32.png'') =
            (Inl OSError, (world_locked ''icon32.png'')\<lparr>files := (files (world_locked ''icon32.png''))(''icon16.png'' \<mapsto> png_layout stored_compress 16),
               stdout := stdout (world_locked ''icon32.png'') @ [''Created icon16.png'']\<rparr>)"
    by (rule D [where w = "world_locked ''icon32.png''", THEN conjunct2, THEN conjunct2, THEN conjunct2, THEN conjunct1, THEN mp]) (simp add: wl)
  have e: "driver stored_compress (world_full ''icon32.png'') =
            (Inl OSError, (world_full ''icon32.png'')\<lparr>files := (files (world_full ''icon32.png''))(''icon16.png'' \<mapsto> png_layout stored_compress 16,
                              ''icon32.png'' \<mapsto> take 8 (png_layout stored_compress 32)),
               stdout := stdout (world_full ''icon32.png'') @ [''Created icon16.png'']\<rparr>)"
    by (rule D [where w = "world_full ''icon32.png''", THEN conjunct2, THEN conjunct2, THEN conjunct2, THEN conjunct2, THEN conjunct1, THEN mp]) (simp add: wf long)
  have f: "driver stored_compress (world_locked ''icon48.png'') =
            (Inl OSError, (world_locked ''icon48.png'')\<lparr>files := (files (world_locked ''icon48.png''))(''icon16.png'' \<mapsto> png_layout stored_compress 16,
                              ''icon32.png'' \<mapsto> png_layout stored_compress 32),
               stdout := stdout (world_locked ''icon48.png'') @ [''Created icon16.png'',
                    ''Created icon32.png'']\<rparr>)"
    by (rule D [where w = "world_locked ''icon48.png''", THEN conjunct2, THEN conjunct2, THEN conjunct2, THEN conjunct2, THEN conjunct2, THEN conjunct1, THEN mp]) (simp add: wl)
  have g: "driver stored_compress (world_full ''icon48.png'') =
            (Inl OSError, (world_full ''icon48.png'')\<lparr>files := (files (world_full ''icon48.png''))(''icon16.png'' \<mapsto> png_layout stored_compress 16,
                              ''icon32.png'' \<mapsto> png_layout stored_compress 32,
                              ''icon48.png'' \<mapsto> take 8 (png_layout stored_compress 48)),
               stdout := stdout (world_full ''icon48.png'') @ [''Created icon16.png'',
                    ''Created icon32.png'']\<rparr>)"
    by (rule D [where w = "world_full ''icon48.png''", THEN conjunct2, THEN conjunct2, THEN conjunct2, THEN conjunct2, THEN conjunct2, THEN conjunct2, THEN conjunct1, THEN mp]) (simp add: wf long)
  have h: "driver stored_compress (world_locked ''icon128.png'') =
            (Inl OSError, (world_locked ''icon128.png'')\<lparr>files := (files (world_locked ''icon128.png''))(''icon16.png'' \<mapsto> png_layout stored_compress 16,
                              ''icon32.png'' \<mapsto> png_layout stored_compress 32,
                              ''icon48.png'' \<mapsto> png_layout stored_compress 48),
               stdout := stdout (world_locked ''icon128.png'') @ [''Created icon16.png'',
                    ''Created icon32.png'',
                    ''Created icon48.png'']\<rparr>)"
    by (rule D [where w = "world_locked ''icon128.png''", THEN conjunct2, THEN conjunct2, THEN conjunct2, THEN conjunct2, THEN conjunct2, THEN conjunct2, THEN conjunct2, THEN conjunct1, THEN mp]) (simp add: wl)
  have i: "driver stored_compress (world_full ''icon128.png'') =
            (Inl OSError, (world_full ''icon128.png'')\<lparr>files := (files (world_full ''icon128.png''))(''icon16.png'' \<mapsto> png_layout stored_compress 16,
                              ''icon32.png'' \<mapsto> png_layout stored_compress 32,
                              ''icon48.png'' \<mapsto> png_layout stored_compress 48,
                              ''icon128.png'' \<mapsto> take 8 (png_layout stored_compress 128)),
               stdout := stdout (world_full ''icon128.png'') @ [''Created icon16.png'',
                    ''Created icon32.png'',
                    ''Created icon48.png'']\<rparr>)"
    by (rule D [where w = "world_full ''icon128.png''", THEN conjunct2, THEN conjunct2, THEN conjunct2, THEN conjunct2, THEN conjunct2, THEN conjunct2, THEN conjunct2, THEN conjunct2, THEN mp]) (simp add: wf long)
  from l16 l32 l48 l128 a b c d e f g h i show ?thesis
    by (intro conjI)
qed

text \<open>
  When icon16.png cannot be opened, icon32.png is not written although it could be, and
  nothing is printed.
\<close>

theorem driver_abort_counterexample:
  "writable (world_locked ''icon16.png'') ''icon32.png''
   \<and> fst (driver stored_compress (world_locked ''icon16.png'')) = Inl OSError
   \<and> files (snd (driver stored_compress (world_locked ''icon16.png''))) ''icon32.png'' = None
   \<and> stdout (snd (driver stored_compress (world_locked ''icon16.png''))) = []"
proof -
  have l16: "length (stored_compress (raw_data 16)) \<le> 4294967295"
    by (rule length_stored_raw) simp_all
  have "\<not> writable (world_locked ''icon16.png'') ''icon16.png''"
    by (simp add: world_locked_def)
  then have "create_icon stored_compress 16 ''icon16.png'' (world_locked ''icon16.png'')
             = (Inl OSError, world_locked ''icon16.png'')"
    using l16 by (simp add: create_icon_locked)
  then have "driver stored_compress (world_locked ''icon16.png'') = (Inl OSError, world_locked ''icon16.png'')"
    by (simp add: driver_def)
  then show ?thesis
    by (simp add: world_locked_def)
qed



text \<open>
  C10. For every size below 0, packing the IHDR fields raises, because the code \<^verbatim>\<open>I\<close>
  takes no negative number, and \<open>create_icon\<close> ends with that error in an unchanged
  world, whether or not the file could have been opened.
\<close>

theorem negative_size_atomic:
  assumes "sz < 0"
  shows "pack_field I sz = Inl StructError
         \<and> ihdr_data sz = Inl StructError
         \<and> create_icon compress sz filename w = (Inl StructError, w)"
  using assms by (simp add: pack_field_def ihdr_data_fail create_icon_unpackable)

theorem negative_size_atomic_witness:
  "(-16::int) < 0
   \<and> pack_field I (-16) = Inl StructError
   \<and> ihdr_data (-16) = Inl StructError
   \<and> create_icon stored_compress (-16) ''icon16.png'' (world_locked ''icon16.png'') = (Inl StructError, (world_locked ''icon16.png''))"
proof -
  have h: "(-16::int) < 0" by simp
  from h negative_size_atomic [where compress = stored_compress, OF h] show ?thesis
    by (intro conjI) simp_all
qed

end
